theory Spec2Isabelle
  imports
    Main
    "HOL-Library.Char_ord"
    "HOL-Library.List_Lexorder"
    "HOL-Library.Option_ord"
    "HOL-Library.Product_Lexorder"
    "HOL-Library.Multiset"
begin

section \<open>Python values used by libmat2\<close>

text \<open>
  Python's \<open>str\<close> is modelled by \<open>string\<close>: the code points below 256. The exceptions
  that the modelled code can raise are values of \<open>py_error\<close>; a function that can raise
  returns \<open>py_error + 'a\<close>.
\<close>

datatype py_error = ValueError | TypeError | SyntaxError | KeyError | ParseError | RecursionError

text \<open>\<open>str.isspace\<close> on one code point below 256.\<close>

definition is_space :: "char \<Rightarrow> bool" where
  "is_space c = (let n = (of_char c :: nat)
                 in (9 \<le> n \<and> n \<le> 13) \<or> (28 \<le> n \<and> n \<le> 32) \<or> n = 133 \<or> n = 160)"

text \<open>\<open>s.strip()\<close>: leading and trailing whitespace removed.\<close>

definition py_strip :: "string \<Rightarrow> string" where
  "py_strip s = rev (dropWhile is_space (rev (dropWhile is_space s)))"

text \<open>\<open>s.lower()\<close> on code points below 256: \<open>A\<close>-\<open>Z\<close> and the Latin-1 capitals.\<close>

definition lower_char :: "char \<Rightarrow> char" where
  "lower_char c = (let n = (of_char c :: nat)
                   in if (65 \<le> n \<and> n \<le> 90) \<or> (192 \<le> n \<and> n \<le> 222 \<and> n \<noteq> 215)
                      then char_of (n + 32) else c)"

definition py_lower :: "string \<Rightarrow> string" where
  "py_lower s = map lower_char s"

text \<open>\<open>p in s\<close> for strings: \<open>p\<close> occurs in \<open>s\<close> as a contiguous run.\<close>

fun starts_with :: "string \<Rightarrow> string \<Rightarrow> bool" where
  "starts_with [] s = True"
| "starts_with (p # ps) [] = False"
| "starts_with (p # ps) (c # cs) = (p = c \<and> starts_with ps cs)"

fun occurs_in :: "string \<Rightarrow> string \<Rightarrow> bool" where
  "occurs_in p [] = (p = [])"
| "occurs_in p (c # cs) = (starts_with p (c # cs) \<or> occurs_in p cs)"

text \<open>\<open>html.escape(s)\<close> with its default \<open>quote=True\<close>.\<close>

definition escape_char :: "char \<Rightarrow> string" where
  "escape_char c =
     (if c = CHR ''&'' then ''&amp;''
      else if c = CHR ''<'' then ''&lt;''
      else if c = CHR ''>'' then ''&gt;''
      else if c = CHR 0x22 then ''&quot;''
      else if c = CHR 0x27 then ''&#x27;''
      else [c])"

definition escape :: "string \<Rightarrow> string" where
  "escape s = concat (map escape_char s)"

text \<open>The double quote, which cannot be written inside a string literal here.\<close>

definition dq :: char where
  "dq = CHR 0x22"


section \<open>web.py: the streaming markup sanitizer\<close>

text \<open>
  \<open>html.parser.HTMLParser\<close> turns the text it is fed into calls of the four handlers
  that \<open>_HTMLParser\<close> overrides. An event carries what the handler receives: the tag
  name (lower-cased by the library), the attribute list (a value is \<open>None\<close> for an
  attribute written without \<open>=\<close>), and for the two kinds of start tag the source text
  that \<open>get_starttag_text()\<close> returns inside the handler. The library calls
  \<open>handle_startendtag\<close> for a tag whose text ends in \<open>/>\<close> and \<open>handle_starttag\<close>
  for every other start tag.
\<close>

type_synonym attrs = "(string \<times> string option) list"

datatype event =
    StartTag string attrs string
  | EndTag string
  | CharData string
  | StartEndTag string attrs string

text \<open>
  \<open>__textrepr\<close> is a string that only grows by \<open>+=\<close>. It is kept as the list of
  the appended runs, each marked with the branch that appended it; the text itself is
  \<open>render\<close> of the list.
\<close>

datatype piece =
    Opening string      \<comment> \<open>\<open>original_tag\<close>, appended by \<open>handle_starttag\<close>\<close>
  | Closing string      \<comment> \<open>\<open>'</' + previous_tag + '>'\<close>, appended by \<open>handle_endtag\<close>\<close>
  | Chars string        \<comment> \<open>\<open>escape(data)\<close>, appended by \<open>handle_data\<close>\<close>
  | SelfClosed string   \<comment> \<open>appended by \<open>handle_startendtag\<close>\<close>

fun piece_text :: "piece \<Rightarrow> string" where
  "piece_text (Opening t) = t"
| "piece_text (Closing n) = ''</'' @ n @ ''>''"
| "piece_text (Chars d) = d"
| "piece_text (SelfClosed t) = t"

definition render :: "piece list \<Rightarrow> string" where
  "render ps = concat (map piece_text ps)"

record html_parser =
  textrepr :: "piece list"
  meta :: "string option \<rightharpoonup> string option"
  validation_queue :: "string list"
  in_dangerous_but_required_tag :: int
  in_dangerous_tag :: int
  tag_required_blacklist :: "string set"
  tag_blacklist :: "string set"

text \<open>\<open>_HTMLParser.__init__\<close>: overlapping sets are refused.\<close>

definition HTMLParser_init :: "string set \<Rightarrow> string set \<Rightarrow> py_error + html_parser" where
  "HTMLParser_init blacklisted_tags required_blacklisted_tags =
     (if required_blacklisted_tags \<inter> blacklisted_tags \<noteq> {} then Inl ValueError
      else Inr \<lparr> textrepr = [], meta = Map.empty, validation_queue = [],
                 in_dangerous_but_required_tag = 0, in_dangerous_tag = 0,
                 tag_required_blacklist = required_blacklisted_tags,
                 tag_blacklist = blacklisted_tags \<rparr>)"

definition handle_starttag :: "html_parser \<Rightarrow> string \<Rightarrow> attrs \<Rightarrow> string \<Rightarrow> html_parser" where
  "handle_starttag self tag as original_tag =
     (let q = validation_queue self @ [original_tag];
          r = (if tag \<in> tag_required_blacklist self
               then in_dangerous_but_required_tag self + 1
               else in_dangerous_but_required_tag self);
          d = (if tag \<in> tag_blacklist self
               then in_dangerous_tag self + 1 else in_dangerous_tag self)
      in self\<lparr> validation_queue := q,
               in_dangerous_but_required_tag := r,
               in_dangerous_tag := d,
               textrepr := (if d = 0 \<and> r \<le> 1 then textrepr self @ [Opening original_tag]
                            else textrepr self) \<rparr>)"

text \<open>\<open>previous_tag[1:-1].split(' ')[0]\<close>: the text between the first and the last
  character, up to its first space.\<close>

definition tag_name :: "string \<Rightarrow> string" where
  "tag_name original_tag = takeWhile (\<lambda>c. c \<noteq> CHR '' '') (butlast (tl original_tag))"

definition handle_endtag :: "html_parser \<Rightarrow> string \<Rightarrow> py_error + html_parser" where
  "handle_endtag self tag =
     (if validation_queue self = [] then Inl ValueError
      else
        let previous_tag = tag_name (last (validation_queue self));
            r = in_dangerous_but_required_tag self;
            d = in_dangerous_tag self
        in if tag \<noteq> py_lower previous_tag then Inl ValueError
           else Inr (self\<lparr>
             validation_queue := butlast (validation_queue self),
             textrepr := (if d = 0 \<and> r \<le> 1 then textrepr self @ [Closing previous_tag]
                          else textrepr self),
             in_dangerous_but_required_tag :=
               (if tag \<in> tag_required_blacklist self then r - 1 else r),
             in_dangerous_tag :=
               (if tag \<notin> tag_required_blacklist self \<and> tag \<in> tag_blacklist self
                then d - 1 else d) \<rparr>))"

definition handle_data :: "html_parser \<Rightarrow> string \<Rightarrow> html_parser" where
  "handle_data self data =
     (if in_dangerous_but_required_tag self = 0 \<and> in_dangerous_tag self = 0
         \<and> py_strip data \<noteq> []
      then self\<lparr> textrepr := textrepr self @ [Chars (escape data)] \<rparr>
      else self)"

text \<open>\<open>{k: v for k, v in attrs}.get(key, default)\<close>: the last pair with the key wins.\<close>

definition attr_get :: "attrs \<Rightarrow> string \<Rightarrow> string \<Rightarrow> string option" where
  "attr_get as key dflt = (case map_of (rev as) key of None \<Rightarrow> Some dflt | Some v \<Rightarrow> v)"

definition handle_startendtag :: "html_parser \<Rightarrow> string \<Rightarrow> attrs \<Rightarrow> string \<Rightarrow> html_parser" where
  "handle_startendtag self tag as starttag_text =
     (if tag \<in> tag_required_blacklist self \<union> tag_blacklist self then
        let name = attr_get as ''name'' ''harmful metadata'';
            content = attr_get as ''content'' ''harmful data'';
            self1 = self\<lparr> meta := (meta self)(name \<mapsto> content) \<rparr>
        in if in_dangerous_tag self \<noteq> 0 then self1
           else if tag \<in> tag_required_blacklist self
           then self1\<lparr> textrepr := textrepr self1 @ [SelfClosed (''<'' @ tag @ '' />'')] \<rparr>
           else self1
      else if in_dangerous_but_required_tag self = 0 \<and> in_dangerous_tag self = 0
      then self\<lparr> textrepr := textrepr self @ [SelfClosed starttag_text] \<rparr>
      else self)"

fun handle :: "html_parser \<Rightarrow> event \<Rightarrow> py_error + html_parser" where
  "handle self (StartTag tag as text) = Inr (handle_starttag self tag as text)"
| "handle self (EndTag tag) = handle_endtag self tag"
| "handle self (CharData data) = Inr (handle_data self data)"
| "handle self (StartEndTag tag as text) = Inr (handle_startendtag self tag as text)"

text \<open>\<open>feed\<close> followed by \<open>close\<close>: the handlers run in the order of the events; an
  exception leaves \<open>AbstractHTMLParser.__init__\<close> and no sanitizer exists.\<close>

fun feed :: "html_parser \<Rightarrow> event list \<Rightarrow> py_error + html_parser" where
  "feed self [] = Inr self"
| "feed self (e # es) = (case handle self e of Inl x \<Rightarrow> Inl x | Inr self' \<Rightarrow> feed self' es)"

text \<open>\<open>_HTMLParser.remove_all\<close>: the text written to the output file (the method
  then returns \<open>True\<close>), or the exception.\<close>

definition remove_all :: "html_parser \<Rightarrow> py_error + string" where
  "remove_all self =
     (if validation_queue self \<noteq> [] then Inl ValueError else Inr (render (textrepr self)))"

definition get_meta :: "html_parser \<Rightarrow> py_error + (string option \<rightharpoonup> string option)" where
  "get_meta self =
     (if validation_queue self \<noteq> [] then Inl ValueError else Inr (meta self))"

text \<open>\<open>AbstractHTMLParser.__init__\<close> for a subclass with the given two sets.\<close>

definition AbstractHTMLParser_init ::
    "string set \<Rightarrow> string set \<Rightarrow> event list \<Rightarrow> py_error + html_parser" where
  "AbstractHTMLParser_init tags_blacklist tags_required_blacklist events =
     (case HTMLParser_init tags_blacklist tags_required_blacklist of
        Inl x \<Rightarrow> Inl x
      | Inr p \<Rightarrow> feed p events)"

text \<open>The two methods of \<open>AbstractHTMLParser\<close>, on the result of the constructor.\<close>

definition cleaned :: "py_error + html_parser \<Rightarrow> py_error + string" where
  "cleaned r = (case r of Inl x \<Rightarrow> Inl x | Inr p \<Rightarrow> remove_all p)"

definition harvested :: "py_error + html_parser \<Rightarrow> py_error + (string option \<rightharpoonup> string option)" where
  "harvested r = (case r of Inl x \<Rightarrow> Inl x | Inr p \<Rightarrow> get_meta p)"


section \<open>web.py: the comment-based sanitizer\<close>

text \<open>
  \<open>re.sub(r'/\*.*?\*/', '', text, 0, re.MULTILINE | re.DOTALL)\<close>. The scan goes from
  left to right. At a position holding \<open>/*\<close> the lazy \<open>.*?\<close> (any character, newlines
  too) stops at the first \<open>*/\<close> that begins two or more characters later; the whole
  span is dropped and the scan goes on behind it. Where no \<open>*/\<close> follows, the
  character is kept and the scan moves one character on.
\<close>

fun find_close :: "string \<Rightarrow> string option" where
  "find_close (a # b # cs) =
     (if a = CHR ''*'' \<and> b = CHR ''/'' then Some cs else find_close (b # cs))"
| "find_close s = None"

lemma find_close_length: "find_close s = Some r \<Longrightarrow> length r < length s"
  by (induction s rule: find_close.induct) (auto split: if_splits)

function (sequential) strip_comments :: "string \<Rightarrow> string" where
  "strip_comments (a # b # cs) =
     (if a = CHR ''/'' \<and> b = CHR ''*''
      then (case find_close cs of
              Some rest \<Rightarrow> strip_comments rest
            | None \<Rightarrow> a # strip_comments (b # cs))
      else a # strip_comments (b # cs))"
| "strip_comments s = s"
  by pat_completeness auto
termination
  by (relation "measure length") (auto dest: find_close_length)

text \<open>\<open>CSSParser.remove_all\<close> on the text that \<open>f.read()\<close> returns: the value
  returned and the text written to the output file.\<close>

definition CSSParser_remove_all :: "string \<Rightarrow> bool \<times> string" where
  "CSSParser_remove_all text = (True, strip_comments text)"

section \<open>office.py: trees, namespaces and the XML library\<close>

text \<open>
  An \<open>xml.etree.ElementTree.Element\<close>: its tag in the library's \<open>{uri}local\<close>
  form, its attributes in document order (the parser admits each key once), its text,
  its tail and its children.
\<close>

datatype element =
  Element (tag: string) (attrib: "(string \<times> string) list") (chars: string) (tail: string)
          (children: "element list")

text \<open>The strict descendants in document order: \<open>elem.iter()\<close> without \<open>elem\<close>.\<close>

fun descendants :: "element \<Rightarrow> element list" where
  "descendants (Element t a x y cs) = concat (map (\<lambda>c. c # descendants c) cs)"

text \<open>
  A namespace prefix is kept as the list of its code points: beyond the 8-bit range
  there are decimal digits, and \<open>register_namespace\<close> looks for them.
\<close>

type_synonym prefix = "nat list"

definition codes :: "string \<Rightarrow> prefix" where
  "codes s = map of_char s"

text \<open>
  The library calls that touch the file take part as parameters. \<open>ET_parse\<close> stands
  for reading a file (\<open>ET.parse\<close> and \<open>ET.iterparse\<close> with \<open>start-ns\<close>): \<open>None\<close> is
  \<open>ET.ParseError\<close>, otherwise the root and the namespace declarations
  \<open>(prefix, uri)\<close> in document order. \<open>ET_broken\<close> gives, for a file that the library
  refuses, the namespace declarations that \<open>iterparse\<close> delivers before it raises
  \<open>ParseError\<close>. \<open>ET_write\<close> stands for \<open>tree.write(full_path, xml_declaration=True)\<close>
  and gives the bytes written (how the library spells a tree, with which prefixes and
  in which encoding, is left to it). \<open>ET_decimal\<close> holds of the code points that \<open>\d\<close>
  matches, the decimal digits of the interpreter's Unicode tables.
\<close>

record etree =
  ET_parse :: "string \<Rightarrow> (element \<times> (prefix \<times> string) list) option"
  ET_write :: "element \<Rightarrow> string"
  ET_broken :: "string \<Rightarrow> (prefix \<times> string) list"
  ET_decimal :: "nat \<Rightarrow> bool"

datatype outcome = Raised py_error | Returned bool

text \<open>A Python \<open>dict\<close> with prefixes as keys, in insertion order.\<close>

type_synonym namespace = "(prefix \<times> string) list"

fun dict_set :: "prefix \<Rightarrow> string \<Rightarrow> namespace \<Rightarrow> namespace" where
  "dict_set k v [] = [(k, v)]"
| "dict_set k v ((k', v') # d) = (if k = k' then (k, v) # d else (k', v') # dict_set k v d)"

text \<open>A run of digits up to the end of the string, where \<open>$\<close> also matches before
  a line feed that ends the string.\<close>

definition digits_to_end :: "(nat \<Rightarrow> bool) \<Rightarrow> nat list \<Rightarrow> bool" where
  "digits_to_end digit r =
     ((r \<noteq> [] \<and> list_all digit r)
      \<or> (r \<noteq> [] \<and> last r = 10 \<and> butlast r \<noteq> [] \<and> list_all digit (butlast r)))"

text \<open>\<open>re.match('^ns[0-9]+$', key, re.I)\<close>: without regard to case \<open>n\<close> is matched
  by \<open>n\<close> and \<open>N\<close>, and \<open>s\<close> by \<open>s\<close>, \<open>S\<close> and the long s (U+017F).\<close>

definition reserved_prefix :: "prefix \<Rightarrow> bool" where
  "reserved_prefix key =
     (length key \<ge> 2 \<and> key ! 0 \<in> {110, 78} \<and> key ! 1 \<in> {115, 83, 383}
      \<and> digits_to_end (\<lambda>n. 48 \<le> n \<and> n \<le> 57) (drop 2 key))"

text \<open>\<open>ET.register_namespace(prefix, uri)\<close> raises \<open>ValueError\<close> when
  \<open>re.match(r"ns\d+$", prefix)\<close> finds a match.\<close>

definition register_refuses :: "etree \<Rightarrow> prefix \<Rightarrow> bool" where
  "register_refuses lib key =
     (take 2 key = [110, 115] \<and> digits_to_end (ET_decimal lib) (drop 2 key))"

text \<open>The loop of \<open>_parse_xml\<close> over the namespace declarations.\<close>

fun read_namespaces :: "etree \<Rightarrow> (prefix \<times> string) list \<Rightarrow> namespace \<Rightarrow> py_error + namespace" where
  "read_namespaces lib [] namespace_map = Inr namespace_map"
| "read_namespaces lib ((key, v) # events) namespace_map =
     (let key' = (if reserved_prefix key then codes ''mat'' @ drop 2 key else key)
      in if register_refuses lib key' then Inl ValueError
         else read_namespaces lib events (dict_set key' v namespace_map))"

text \<open>\<open>_parse_xml\<close>: the loop runs while the file is read, so on a file that the
  library refuses a prefix declared before the fault can raise \<open>ValueError\<close> first.\<close>

definition parse_xml :: "etree \<Rightarrow> string \<Rightarrow> py_error + (element \<times> namespace)" where
  "parse_xml lib content =
     (case ET_parse lib content of
        None \<Rightarrow>
          (case read_namespaces lib (ET_broken lib content) [] of
             Inl e \<Rightarrow> Inl e
           | Inr namespace_map \<Rightarrow> Inl ParseError)
      | Some (tree, events) \<Rightarrow>
          (case read_namespaces lib events [] of
             Inl e \<Rightarrow> Inl e
           | Inr namespace_map \<Rightarrow> Inr (tree, namespace_map)))"

text \<open>A path step \<open>prefix:local\<close> looked up in the namespace map, as \<open>find\<close> and
  \<open>iterfind\<close> do when they are called: an unknown prefix raises \<open>SyntaxError\<close>.\<close>

definition qname :: "namespace \<Rightarrow> string \<Rightarrow> string \<Rightarrow> py_error + string" where
  "qname ns prefix local =
     (case map_of ns (codes prefix) of
        None \<Rightarrow> Inl SyntaxError
      | Some uri \<Rightarrow> Inr (''{'' @ uri @ ''}'' @ local))"


section \<open>office.py: \<open>_sort_xml_attributes\<close>\<close>

definition desc :: "element \<Rightarrow> string option" where
  "desc child = map_of (attrib child) ''desc''"

definition child_key :: "element \<Rightarrow> string \<times> string option" where
  "child_key child = (tag child, desc child)"

text \<open>
  \<open>sorted(c, key=...)\<close> compares the key tuples with \<open><\<close>. Two keys with different
  tags are ordered by the tags. With equal tags the second components decide: two
  strings are compared, two \<open>None\<close> are equal, and \<open>None\<close> against a string raises
  \<open>TypeError\<close>. A stable sort has to compare some \<open>None\<close> key with some string key of
  the same tag whenever both occur, since no other answer can tell on which side of
  each other they belong.
\<close>

definition clash :: "element \<Rightarrow> element \<Rightarrow> bool" where
  "clash a b = (tag a = tag b \<and> (desc a = None) \<noteq> (desc b = None))"

definition sorted_py :: "element list \<Rightarrow> py_error + element list" where
  "sorted_py cs =
     (if list_ex (\<lambda>a. list_ex (clash a) cs) cs then Inl TypeError
      else Inr (sort_key child_key cs))"

text \<open>\<open>for c in tree.getroot(): c[:] = sorted(c, key=...)\<close>\<close>

fun sort_each :: "element list \<Rightarrow> py_error + element list" where
  "sort_each [] = Inr []"
| "sort_each (Element t a x y cs # rest) =
     (case sorted_py cs of
        Inl e \<Rightarrow> Inl e
      | Inr cs' \<Rightarrow>
          (case sort_each rest of
             Inl e \<Rightarrow> Inl e
           | Inr rest' \<Rightarrow> Inr (Element t a x y cs' # rest')))"

definition sort_tree :: "element \<Rightarrow> py_error + element" where
  "sort_tree root =
     (case sort_each (children root) of
        Inl e \<Rightarrow> Inl e
      | Inr cs' \<Rightarrow> Inr (Element (tag root) (attrib root) (chars root) (tail root) cs'))"

text \<open>\<open>_sort_xml_attributes\<close>: the exception raised, or the bytes written (the
  function then returns \<open>True\<close>).\<close>

definition sort_xml_attributes :: "etree \<Rightarrow> string \<Rightarrow> py_error + string" where
  "sort_xml_attributes lib content =
     (case ET_parse lib content of
        None \<Rightarrow> Inl ParseError
      | Some (root, events) \<Rightarrow>
          (case sort_tree root of
             Inl e \<Rightarrow> Inl e
           | Inr root' \<Rightarrow> Inr (ET_write lib root')))"


section \<open>office.py: \<open>MSOfficeParser.__remove_rsid\<close>\<close>

definition rsid_tag :: "string \<Rightarrow> bool" where
  "rsid_tag t = occurs_in ''}rsid'' (py_lower (py_strip t))"

definition rsid_key :: "string \<Rightarrow> bool" where
  "rsid_key k = occurs_in ''}rsid'' (py_lower k)"

text \<open>
  The first loop visits every element below the root once, in document order
  (\<open>iterfind('.//')\<close> is \<open>iterfind('.//*')\<close>): an element with an rsid tag goes to
  \<open>elements_to_remove\<close>, any other loses its rsid attributes. The second loop takes
  each collected element out of the parent it had when \<open>parent_map\<close> was built;
  \<open>remove\<close> goes by identity, and every collected element is in its parent exactly
  once. So the tree written is the one read, without the subtrees under an rsid tag
  and without the rsid attributes of the elements that stay; the root keeps its tag
  and attributes.
\<close>

fun rsid_clean :: "element \<Rightarrow> element" where
  "rsid_clean (Element t a x y cs) =
     Element t (filter (\<lambda>(k, v). \<not> rsid_key k) a) x y
       (map rsid_clean (filter (\<lambda>c. \<not> rsid_tag (tag c)) cs))"

definition rsid_pass :: "element \<Rightarrow> element" where
  "rsid_pass root =
     Element (tag root) (attrib root) (chars root) (tail root)
       (map rsid_clean (filter (\<lambda>c. \<not> rsid_tag (tag c)) (children root)))"

definition MSOffice_remove_rsid :: "etree \<Rightarrow> string \<Rightarrow> string \<times> outcome" where
  "MSOffice_remove_rsid lib content =
     (case parse_xml lib content of
        Inl e \<Rightarrow> (content, if e = ParseError then Returned False else Raised e)
      | Inr (tree, namespace) \<Rightarrow>
          if codes ''w'' \<notin> set (map fst namespace) then (content, Returned True)
          else (ET_write lib (rsid_pass tree), Returned True))"

section \<open>office.py: \<open>MSOfficeParser.__remove_content_type_members\<close>\<close>

text \<open>
  \<open>r.search(fname)\<close> for the patterns of \<open>files_to_omit\<close>, which hold literal
  characters and the dot (any character but the line feed).
\<close>

fun re_match_here :: "string \<Rightarrow> string \<Rightarrow> bool" where
  "re_match_here [] s = True"
| "re_match_here (p # ps) [] = False"
| "re_match_here (p # ps) (c # cs) =
     ((if p = CHR ''.'' then c \<noteq> CHR 0x0A else p = c) \<and> re_match_here ps cs)"

fun re_search :: "string \<Rightarrow> string \<Rightarrow> bool" where
  "re_search p [] = (p = [])"
| "re_search p (c # cs) = (re_match_here p (c # cs) \<or> re_search p cs)"

definition MSOffice_files_to_omit :: "string list" where
  "MSOffice_files_to_omit = [''word/webSettings.xml'', ''word/theme'']"

text \<open>\<open>item.attrib['PartName'][1:]\<close> for every \<open>Override\<close> child of the root, and
  \<open>root.remove(item)\<close> where the name is one of the removed files. A missing
  attribute raises \<open>KeyError\<close>.\<close>

fun drop_overrides :: "string \<Rightarrow> string list \<Rightarrow> element list \<Rightarrow> py_error + element list" where
  "drop_overrides ov removed_fnames [] = Inr []"
| "drop_overrides ov removed_fnames (item # items) =
     (if tag item = ov then
        (case map_of (attrib item) ''PartName'' of
           None \<Rightarrow> Inl KeyError
         | Some part \<Rightarrow>
             (case drop_overrides ov removed_fnames items of
                Inl e \<Rightarrow> Inl e
              | Inr items' \<Rightarrow>
                  if tl part \<in> set removed_fnames then Inr items' else Inr (item # items')))
      else
        (case drop_overrides ov removed_fnames items of
           Inl e \<Rightarrow> Inl e
         | Inr items' \<Rightarrow> Inr (item # items')))"

text \<open>\<open>zip_names\<close> are the member names of the archive \<open>self.filename\<close>.\<close>

definition MSOffice_remove_content_type_members ::
    "etree \<Rightarrow> string list \<Rightarrow> string \<Rightarrow> string \<times> outcome" where
  "MSOffice_remove_content_type_members lib zip_names content =
     (case parse_xml lib content of
        Inl e \<Rightarrow> (content, if e = ParseError then Returned False else Raised e)
      | Inr (tree, namespace) \<Rightarrow>
          if length namespace \<noteq> 1 then (content, Returned False)
          else
            let removed_fnames =
                  filter (\<lambda>fname. list_ex (\<lambda>r. re_search r fname) MSOffice_files_to_omit)
                         zip_names
            in (case map_of namespace (codes '''') of
                  None \<Rightarrow> (content, Raised KeyError)
                | Some uri \<Rightarrow>
                    (case drop_overrides (''{'' @ uri @ ''}Override'') removed_fnames
                            (children tree) of
                       Inl e \<Rightarrow> (content, Raised e)
                     | Inr cs \<Rightarrow>
                         (ET_write lib
                            (Element (tag tree) (attrib tree) (chars tree) (tail tree) cs),
                          Returned True))))"


section \<open>office.py: \<open>MSOfficeParser.__remove_revisions\<close>\<close>

text \<open>Taking every element with the given tag out of its parent, below the root.\<close>

fun without_tag :: "string \<Rightarrow> element \<Rightarrow> element" where
  "without_tag d (Element t a x y cs) =
     Element t a x y (map (without_tag d) (filter (\<lambda>c. tag c \<noteq> d) cs))"

text \<open>
  The insertions are spliced while elements are shared: a child put into its
  grandparent stays a child of the \<open>w:ins\<close> element too. So this part works on a store.
  An element is named by its position in \<open>tree.iter()\<close>, which is also the
  \<open>position\<close> the source passes to \<open>insert\<close>; the store maps a name to the names of
  its children. Tags, attributes and text do not change and are read from the list
  \<open>tree.iter()\<close> itself.
\<close>

fun child_ids :: "nat \<Rightarrow> element list \<Rightarrow> nat list" where
  "child_ids i [] = []"
| "child_ids i (c # cs) = i # child_ids (i + Suc (length (descendants c))) cs"

fun kids_of :: "nat \<Rightarrow> element \<Rightarrow> (nat \<times> nat list) list"
  and kids_forest :: "nat \<Rightarrow> element list \<Rightarrow> (nat \<times> nat list) list" where
  "kids_of i (Element t a x y cs) = (i, child_ids (Suc i) cs) # kids_forest (Suc i) cs"
| "kids_forest i [] = []"
| "kids_forest i (c # cs) = kids_of i c @ kids_forest (i + Suc (length (descendants c))) cs"

type_synonym store = "nat \<Rightarrow> nat list"

definition store_of :: "(nat \<times> nat list) list \<Rightarrow> store" where
  "store_of tbl = (\<lambda>i. case map_of tbl i of None \<Rightarrow> [] | Some ks \<Rightarrow> ks)"

text \<open>\<open>parent_map\<close>, restricted to the elements that are left after the deletions.\<close>

definition parent_map :: "(nat \<times> nat list) list \<Rightarrow> nat \<Rightarrow> nat option" where
  "parent_map tbl c = map_option fst (find (\<lambda>(p, ks). c \<in> set ks) tbl)"

text \<open>\<open>list.insert(position, x)\<close> with a position that is not negative.\<close>

definition insert_at :: "nat \<Rightarrow> 'a \<Rightarrow> 'a list \<Rightarrow> 'a list" where
  "insert_at n x xs = take n xs @ [x] @ drop n xs"

text \<open>The triples \<open>(element, position, children)\<close>; element and position coincide.\<close>

definition ins_triples :: "string \<Rightarrow> element list \<Rightarrow> (nat \<times> nat list) list \<Rightarrow> (nat \<times> nat) list" where
  "ins_triples ins nodes tbl =
     concat (map (\<lambda>i. if tag (nodes ! i) = ins then map (\<lambda>c. (i, c)) (store_of tbl i) else [])
                 [1 ..< length nodes])"

text \<open>\<open>parent_map[element].insert(position, children)\<close> and
  \<open>parent_map[element].remove(element)\<close>, which raises \<open>ValueError\<close> when the element
  is not in the list, and \<open>KeyError\<close> when the element has no parent.\<close>

fun splice :: "(nat \<times> nat list) list \<Rightarrow> (nat \<times> nat) list \<Rightarrow> store \<Rightarrow> py_error + store" where
  "splice tbl [] h = Inr h"
| "splice tbl ((i, c) # rest) h =
     (case parent_map tbl i of
        None \<Rightarrow> Inl KeyError
      | Some p \<Rightarrow>
          let l = insert_at i c (h p)
          in if i \<in> set l then splice tbl rest (h(p := remove1 i l)) else Inl ValueError)"

text \<open>Reading the tree back from the store, as \<open>tree.write\<close> walks it. The fuel
  bounds the depth of the walk.\<close>

fun rebuild :: "nat \<Rightarrow> element list \<Rightarrow> store \<Rightarrow> nat \<Rightarrow> element option" where
  "rebuild 0 nodes h i = None"
| "rebuild (Suc fuel) nodes h i =
     (let ks = map (rebuild fuel nodes h) (h i)
      in if list_ex (\<lambda>k. k = None) ks then None
         else Some (Element (tag (nodes ! i)) (attrib (nodes ! i)) (chars (nodes ! i))
                            (tail (nodes ! i)) (map the ks)))"

definition accept_insertions :: "string \<Rightarrow> element \<Rightarrow> py_error + element" where
  "accept_insertions ins tree =
     (let nodes = tree # descendants tree;
          tbl = kids_of 0 tree
      in case splice tbl (ins_triples ins nodes tbl) (store_of tbl) of
           Inl e \<Rightarrow> Inl e
         | Inr h \<Rightarrow>
             (case rebuild (Suc (length nodes)) nodes h 0 of
                None \<Rightarrow> Inl RecursionError
              | Some tree' \<Rightarrow> Inr tree'))"

definition MSOffice_remove_revisions :: "etree \<Rightarrow> string \<Rightarrow> string \<times> outcome" where
  "MSOffice_remove_revisions lib content =
     (case parse_xml lib content of
        Inl e \<Rightarrow> (content, if e = ParseError then Returned False else Raised e)
      | Inr (tree, namespace) \<Rightarrow>
          (case qname namespace ''w'' ''del'' of
             Inl e \<Rightarrow> (content, Raised e)
           | Inr del \<Rightarrow>
               (case qname namespace ''w'' ''ins'' of
                  Inl e \<Rightarrow> (content, Raised e)
                | Inr ins \<Rightarrow>
                    if \<not> list_ex (\<lambda>e. tag e = del) (descendants tree)
                       \<and> \<not> list_ex (\<lambda>e. tag e = ins) (descendants tree)
                    then (content, Returned True)
                    else
                      (case accept_insertions ins (without_tag del tree) of
                         Inl e \<Rightarrow> (content, Raised e)
                       | Inr tree' \<Rightarrow> (ET_write lib tree', Returned True)))))"


section \<open>office.py: \<open>MSOfficeParser._specific_cleanup\<close>\<close>

definition ends_with :: "string \<Rightarrow> string \<Rightarrow> bool" where
  "ends_with s suffix = starts_with (rev suffix) (rev s)"

definition app_xml :: string where
  "app_xml = ''<?xml version='' @ [dq] @ ''1.0'' @ [dq] @ '' encoding='' @ [dq] @ ''UTF-8'' @ [dq]
       @ '' standalone='' @ [dq] @ ''yes'' @ [dq] @ ''?>''
       @ ''<Properties xmlns='' @ [dq]
       @ ''http://schemas.openxmlformats.org/officeDocument/2006/extended-properties'' @ [dq]
       @ ''>'' @ ''</Properties>''"

definition core_xml :: string where
  "core_xml = ''<?xml version='' @ [dq] @ ''1.0'' @ [dq] @ '' encoding='' @ [dq] @ ''UTF-8'' @ [dq]
       @ '' standalone='' @ [dq] @ ''yes'' @ [dq] @ ''?>''
       @ ''<cp:coreProperties xmlns:cp='' @ [dq]
       @ ''http://schemas.openxmlformats.org/package/2006/metadata/core-properties'' @ [dq]
       @ ''>'' @ ''</cp:coreProperties>''"

text \<open>\<open>re.sub(b'mc:Ignorable="[^"]*"', b'', text, 1)\<close>: the first place where the
  attribute name, a quote, characters other than the quote and a quote follow each
  other is cut out.\<close>

definition ignorable_prefix :: string where
  "ignorable_prefix = ''mc:Ignorable='' @ [dq]"

fun sub_ignorable :: "string \<Rightarrow> string" where
  "sub_ignorable [] = []"
| "sub_ignorable (c # cs) =
     (if starts_with ignorable_prefix (c # cs)
         \<and> dropWhile (\<lambda>k. k \<noteq> dq) (drop (length ignorable_prefix) (c # cs)) \<noteq> []
      then tl (dropWhile (\<lambda>k. k \<noteq> dq) (drop (length ignorable_prefix) (c # cs)))
      else c # sub_ignorable cs)"

text \<open>The hook gets the path of the extracted member and works on the file there:
  the result is the content of the file afterwards and what the call did.\<close>

definition MSOffice_specific_cleanup ::
    "etree \<Rightarrow> string list \<Rightarrow> string \<Rightarrow> string \<Rightarrow> string \<times> outcome" where
  "MSOffice_specific_cleanup lib zip_names full_path content =
     (if length content = 0 then (content, Returned True)
      else if \<not> ends_with full_path ''.xml'' then (content, Returned True)
      else
        let (c1, o1) =
              (if ends_with full_path ''/[Content_Types].xml''
               then MSOffice_remove_content_type_members lib zip_names content
               else if ends_with full_path ''/word/document.xml''
               then MSOffice_remove_revisions lib content
               else if ends_with full_path ''/docProps/app.xml''
               then (app_xml, Returned True)
               else if ends_with full_path ''/docProps/core.xml''
               then (core_xml, Returned True)
               else (content, Returned True))
        in if o1 \<noteq> Returned True then (c1, o1)
           else
             let (c2, o2) = MSOffice_remove_rsid lib c1
             in if o2 \<noteq> Returned True then (c2, o2)
                else
                  (case sort_xml_attributes lib c2 of
                     Inl e \<Rightarrow> (c2, if e = ParseError then Returned False else Raised e)
                   | Inr c3 \<Rightarrow> (sub_ignorable c3, Returned True)))"

section \<open>office.py: \<open>LibreOfficeParser.__remove_revisions\<close>\<close>

text \<open>
  \<open>for changes in text.iterfind('.//text:tracked-changes', namespace): text.remove(changes)\<close>.
  The iterator walks the live child list of \<open>text\<close> by index, and under each child
  the whole subtree. \<open>text.remove\<close> takes out a direct child and raises
  \<open>ValueError\<close> for any other element. A child that matches is taken out when it is
  reached, which moves the later children one place down while the index still goes
  one up; a match deeper in the subtree of a child is not in the list of \<open>text\<close>.
\<close>

function scan_changes :: "string \<Rightarrow> element list \<Rightarrow> nat \<Rightarrow> py_error + element list" where
  "scan_changes tc cs i =
     (if i < length cs then
        let e = cs ! i;
            cs1 = (if tag e = tc then take i cs @ drop (Suc i) cs else cs)
        in if list_ex (\<lambda>d. tag d = tc) (descendants e) then Inl ValueError
           else scan_changes tc cs1 (Suc i)
      else Inr cs)"
  by pat_completeness auto
termination
  by (relation "measure (\<lambda>(tc, cs, i). length cs - i)") auto

declare scan_changes.simps [simp del]

lemma scan_changes_size:
  "scan_changes tc cs i = Inr cs' \<Longrightarrow> size_list size cs' \<le> size_list size cs"
proof (induction tc cs i rule: scan_changes.induct)
  case (1 tc cs i)
  show ?case
  proof (cases "i < length cs")
    case False
    with "1.prems" show ?thesis by (simp add: scan_changes.simps [of tc cs i])
  next
    case True
    let ?cs1 = "if tag (cs ! i) = tc then take i cs @ drop (Suc i) cs else cs"
    from True "1.prems" have nd: "\<not> list_ex (\<lambda>d. tag d = tc) (descendants (cs ! i))"
      and rec: "scan_changes tc ?cs1 (Suc i) = Inr cs'"
      by (auto simp: scan_changes.simps [of tc cs i] Let_def split: if_splits)
    from "1.IH" [OF True refl refl nd rec] have "size_list size cs' \<le> size_list size ?cs1" .
    moreover have "size_list size ?cs1 \<le> size_list size cs"
    proof -
      have "cs = take i cs @ cs ! i # drop (Suc i) cs"
        using True by (rule id_take_nth_drop)
      then have "size_list size cs = size_list size (take i cs @ cs ! i # drop (Suc i) cs)"
        by simp
      then show ?thesis by simp
    qed
    ultimately show ?thesis by simp
  qed
qed

text \<open>
  \<open>for text in tree.getroot().iterfind('.//office:text', namespace)\<close>: the outer
  iterator reaches an element, the inner loop changes its child list, and the walk
  goes on into the children that are left. The inner \<open>iterfind\<close> looks up its prefix
  when it is called; \<open>tc\<close> is the result of that lookup.
\<close>

function (sequential) office_walk :: "string \<Rightarrow> py_error + string \<Rightarrow> element \<Rightarrow> py_error + element"
  and office_walk_list :: "string \<Rightarrow> py_error + string \<Rightarrow> element list \<Rightarrow> py_error + element list" where
  "office_walk ot tc (Element t a x y cs) =
     (if t = ot then
        (case tc of
           Inl e \<Rightarrow> Inl e
         | Inr n \<Rightarrow>
             (case scan_changes n cs 0 of
                Inl e \<Rightarrow> Inl e
              | Inr cs1 \<Rightarrow>
                  (case office_walk_list ot tc cs1 of
                     Inl e \<Rightarrow> Inl e
                   | Inr cs2 \<Rightarrow> Inr (Element t a x y cs2))))
      else
        (case office_walk_list ot tc cs of
           Inl e \<Rightarrow> Inl e
         | Inr cs2 \<Rightarrow> Inr (Element t a x y cs2)))"
| "office_walk_list ot tc [] = Inr []"
| "office_walk_list ot tc (c # cs) =
     (case office_walk ot tc c of
        Inl e \<Rightarrow> Inl e
      | Inr c' \<Rightarrow>
          (case office_walk_list ot tc cs of
             Inl e \<Rightarrow> Inl e
           | Inr cs' \<Rightarrow> Inr (c' # cs')))"
  by pat_completeness auto
termination
  by (relation "measure (\<lambda>v. case v of Inl (ot, tc, e) \<Rightarrow> size e
                                       | Inr (ot, tc, cs) \<Rightarrow> size_list size cs)")
     (auto dest: scan_changes_size)

definition LibreOffice_remove_revisions :: "etree \<Rightarrow> string \<Rightarrow> string \<times> outcome" where
  "LibreOffice_remove_revisions lib content =
     (case parse_xml lib content of
        Inl e \<Rightarrow> (content, if e = ParseError then Returned False else Raised e)
      | Inr (tree, namespace) \<Rightarrow>
          if codes ''office'' \<notin> set (map fst namespace) then (content, Returned True)
          else
            (case qname namespace ''office'' ''text'' of
               Inl e \<Rightarrow> (content, Raised e)
             | Inr ot \<Rightarrow>
                 (case office_walk_list ot (qname namespace ''text'' ''tracked-changes'')
                         (children tree) of
                    Inl e \<Rightarrow> (content, Raised e)
                  | Inr cs \<Rightarrow>
                      (ET_write lib
                         (Element (tag tree) (attrib tree) (chars tree) (tail tree) cs),
                       Returned True))))"

text \<open>\<open>LibreOfficeParser._specific_cleanup\<close>; \<open>basename\<close> is
  \<open>os.path.basename(full_path)\<close>.\<close>

definition LibreOffice_specific_cleanup :: "etree \<Rightarrow> string \<Rightarrow> string \<Rightarrow> string \<times> outcome" where
  "LibreOffice_specific_cleanup lib basename content =
     (if length content = 0 then (content, Returned True)
      else if ends_with basename ''.xml'' then
        let (c1, o1) = (if basename = ''content.xml''
                        then LibreOffice_remove_revisions lib content
                        else (content, Returned True))
        in if o1 \<noteq> Returned True then (c1, o1)
           else
             (case sort_xml_attributes lib c1 of
                Inl e \<Rightarrow> (c1, if e = ParseError then Returned False else Raised e)
              | Inr c2 \<Rightarrow> (c2, Returned True))
      else (content, Returned True))"

section \<open>Notions used to state the properties of the markup sanitizer\<close>

text \<open>The name that \<open>handle_endtag\<close> compares an end tag with.\<close>

definition lname :: "string \<Rightarrow> string" where
  "lname original_tag = py_lower (tag_name original_tag)"

text \<open>
  What the sanitizer relies on in \<open>html.parser\<close>: the library reads the name of a
  start tag and the name of an end tag from the source by the same rule. So an end
  tag that passes the comparison of \<open>handle_endtag\<close> against the text of a start tag
  carries the name that start tag was delivered with. (A start tag such as
  \<open><title\<close> followed by a line break and \<open>>\<close>, whose text does not give its
  name back, is matched by no end tag.)
\<close>

definition agree :: "event list \<Rightarrow> bool" where
  "agree es =
     (\<forall>e \<in> set es. case e of
        StartTag tg ats src \<Rightarrow> EndTag (lname src) \<in> set es \<longrightarrow> tg = lname src
      | _ \<Rightarrow> True)"

definition end_tags :: "event list \<Rightarrow> string set" where
  "end_tags es = {t. EndTag t \<in> set es}"

fun delivered :: "string set \<Rightarrow> event \<Rightarrow> bool" where
  "delivered E (StartTag tg ats src) = (lname src \<in> E \<longrightarrow> tg = lname src)"
| "delivered E (EndTag tg) = (tg \<in> E)"
| "delivered E (CharData d) = True"
| "delivered E (StartEndTag tg ats src) = True"

text \<open>
  The output is validly nested when its runs pass the check the sanitizer makes on its
  input: every closing run matches the innermost opening run that is still open, and
  nothing is left open at the end.
\<close>

fun nesting :: "piece list \<Rightarrow> string list \<Rightarrow> string list option" where
  "nesting [] stk = Some stk"
| "nesting (Opening t # ps) stk = nesting ps (t # stk)"
| "nesting (Closing n # ps) stk =
     (case stk of
        [] \<Rightarrow> None
      | t # stk' \<Rightarrow> if py_lower n = py_lower (tag_name t) then nesting ps stk' else None)"
| "nesting (Chars d # ps) stk = nesting ps stk"
| "nesting (SelfClosed t # ps) stk = nesting ps stk"

definition validly_nested :: "piece list \<Rightarrow> bool" where
  "validly_nested ps = (nesting ps [] = Some [])"

text \<open>The open tags of a queue that belong to a set, and those that an end tag of
  the input can still close.\<close>

definition cnt :: "string set \<Rightarrow> string list \<Rightarrow> int" where
  "cnt S q = int (length (filter (\<lambda>t. lname t \<in> S) q))"

definition cntE :: "string set \<Rightarrow> string set \<Rightarrow> string list \<Rightarrow> int" where
  "cntE E S q = int (length (filter (\<lambda>t. lname t \<in> S \<and> lname t \<in> E) q))"

text \<open>The open tags of a queue whose start tag went to the output, oldest first.\<close>

fun shown :: "string set \<Rightarrow> string set \<Rightarrow> int \<Rightarrow> int \<Rightarrow> string list \<Rightarrow> string list" where
  "shown req bl r d [] = []"
| "shown req bl r d (t # ts) =
     (let r' = (if lname t \<in> req then r + 1 else r);
          d' = (if lname t \<in> bl then d + 1 else d)
      in (if d' = 0 \<and> r' \<le> 1 then [t] else []) @ shown req bl r' d' ts)"

definition lower_inv :: "string set \<Rightarrow> html_parser \<Rightarrow> bool" where
  "lower_inv E p =
     (cntE E (tag_required_blacklist p) (validation_queue p) \<le> in_dangerous_but_required_tag p
      \<and> cntE E (tag_blacklist p) (validation_queue p) \<le> in_dangerous_tag p)"

definition exact_inv :: "html_parser \<Rightarrow> bool" where
  "exact_inv p =
     (in_dangerous_but_required_tag p = cnt (tag_required_blacklist p) (validation_queue p)
      \<and> in_dangerous_tag p = cnt (tag_blacklist p) (validation_queue p)
      \<and> nesting (textrepr p) [] =
          Some (rev (shown (tag_required_blacklist p) (tag_blacklist p) 0 0 (validation_queue p))))"

definition stuck :: "string set \<Rightarrow> html_parser \<Rightarrow> bool" where
  "stuck E p = (\<exists>t \<in> set (validation_queue p). lname t \<notin> E)"

definition disjoint_cfg :: "html_parser \<Rightarrow> bool" where
  "disjoint_cfg p = (tag_required_blacklist p \<inter> tag_blacklist p = {})"

text \<open>Inputs used below, as the library delivers them.\<close>

definition title_secret :: "event list" where
  "title_secret = [StartTag ''title'' [] ''<title>'', CharData ''Secret'', EndTag ''title'']"

definition meta_author_attrs :: attrs where
  "meta_author_attrs = [(''name'', Some ''author''), (''content'', Some ''Bob'')]"

definition meta_author_open :: "event list" where
  "meta_author_open =
     [StartTag ''meta'' meta_author_attrs
        (''<meta name='' @ [dq] @ ''author'' @ [dq] @ '' content='' @ [dq] @ ''Bob'' @ [dq] @ ''>'')]"

definition meta_author_selfclosed :: "event list" where
  "meta_author_selfclosed =
     [StartEndTag ''meta'' meta_author_attrs
        (''<meta name='' @ [dq] @ ''author'' @ [dq] @ '' content='' @ [dq] @ ''Bob'' @ [dq] @ ''/>'')]"

definition page :: "event list" where
  "page =
     [StartTag ''div'' [(''id'', Some ''x'')] ''<DIV id=x>'',
      StartTag ''title'' [] ''<title>'',
      CharData ''T'',
      StartTag ''title'' [] ''<title>'',
      EndTag ''title'',
      EndTag ''title'',
      StartTag ''meta'' [] ''<meta>'',
      StartTag ''b'' [] ''<b>'',
      EndTag ''b'',
      EndTag ''meta'',
      CharData ''Hi'',
      EndTag ''div'']"


section \<open>Reading the tags of a text\<close>

text \<open>
  What is written is a text, and whether it is validly nested is read from the text,
  the way an HTML tokenizer reads tags. A tag begins at \<open><\<close>. An end tag begins
  with \<open></\<close> and runs to the next \<open>>\<close>. Any other tag begins with its name, which
  runs up to the first white space, slash or \<open>>\<close>, and goes on with attributes; the
  value of an attribute follows \<open>=\<close> and is either put in quotes, and then runs to
  the next quote of the same kind, or runs to the next white space or \<open>>\<close>. The tag
  ends at the first \<open>>\<close> that is not inside a quoted value. It is an empty-element
  tag when a slash outside the values stands right before that \<open>>\<close>, and a start tag
  otherwise. Names count in lower case. Everything outside the tags is character data.
\<close>

datatype tag_token = Open_tag string | Close_tag string | Empty_tag string














text \<open>The tags are validly nested when every end tag closes the innermost start tag
  that is still open, under the same name, and no start tag is left open.\<close>

fun balance :: "tag_token list \<Rightarrow> string list \<Rightarrow> string list option" where
  "balance [] stk = Some stk"
| "balance (Open_tag n # ts) stk = balance ts (n # stk)"
| "balance (Close_tag n # ts) stk =
     (case stk of
        [] \<Rightarrow> None
      | m # stk' \<Rightarrow> if n = m then balance ts stk' else None)"
| "balance (Empty_tag n # ts) stk = balance ts stk"









section \<open>Documents used to evaluate the office sanitizers\<close>

text \<open>Elements without text, tail or attributes, for short.\<close>

definition el :: "string \<Rightarrow> element list \<Rightarrow> element" where
  "el t cs = Element t [] [] [] cs"

definition office_uri :: string where
  "office_uri = ''urn:oasis:names:tc:opendocument:xmlns:office:1.0''"

definition text_uri :: string where
  "text_uri = ''urn:oasis:names:tc:opendocument:xmlns:text:1.0''"

definition odf_namespaces :: "(prefix \<times> string) list" where
  "odf_namespaces = [(codes ''office'', office_uri), (codes ''text'', text_uri)]"

definition tracked_changes :: element where
  "tracked_changes = el (''{'' @ text_uri @ ''}tracked-changes'') []"

text \<open>\<open>content.xml\<close> with the tracked changes inside a paragraph of the text.\<close>

definition nested_changes_tree :: element where
  "nested_changes_tree =
     el (''{'' @ office_uri @ ''}document-content'')
       [el (''{'' @ office_uri @ ''}body'')
          [el (''{'' @ office_uri @ ''}text'')
             [el (''{'' @ text_uri @ ''}p'') [tracked_changes]]]]"

text \<open>\<open>content.xml\<close> with two blocks of tracked changes next to each other.\<close>

definition twin_changes_tree :: element where
  "twin_changes_tree =
     el (''{'' @ office_uri @ ''}document-content'')
       [el (''{'' @ office_uri @ ''}body'')
          [el (''{'' @ office_uri @ ''}text'') [tracked_changes, tracked_changes]]]"

text \<open>A part whose namespace prefix is not \<open>w\<close> and which holds an rsid element
  with an rsid attribute.\<close>

definition plain_rsid_tree :: element where
  "plain_rsid_tree =
     el ''{urn:x}doc''
       [Element ''{urn:x}rsidR'' [(''{urn:x}rsidDel'', ''00A1'')] [] [] []]"

text \<open>A part of a word processing document with rsid elements and attributes below
  the root and an rsid attribute on the root.\<close>

definition w_uri :: string where
  "w_uri = ''http://schemas.openxmlformats.org/wordprocessingml/2006/main''"

definition w_rsid_tree :: element where
  "w_rsid_tree =
     Element (''{'' @ w_uri @ ''}settings'') [(''{'' @ w_uri @ ''}rsidR'', ''00A1'')] [] []
       [el (''{'' @ w_uri @ ''}rsids'') [el (''{'' @ w_uri @ ''}rsidRoot'') []],
        Element (''{'' @ w_uri @ ''}p'')
                [(''{'' @ w_uri @ ''}rsidRDefault'', ''00B2''), (''{'' @ w_uri @ ''}val'', ''1'')]
                [] []
          [Element (''{'' @ w_uri @ ''}r'') [(''{'' @ w_uri @ ''}RSIDRPR'', ''00C3'')] [] [] []]]"

text \<open>A part whose two paragraphs share a tag and only one of which has \<open>desc\<close>.\<close>

definition desc_clash_tree :: element where
  "desc_clash_tree =
     el ''doc''
       [el ''sec'' [Element ''p'' [(''desc'', ''x'')] [] [] [], el ''p'' []]]"

text \<open>A part whose children are out of order at the root, below a child of the root
  and one level further down.\<close>

definition unsorted_tree :: element where
  "unsorted_tree =
     el ''doc''
       [el ''b'' [el ''z'' [el ''n'' [], el ''m'' []], el ''y'' []],
        el ''a'' []]"

text \<open>
  A stand-in for the XML library that reads the files named here and nothing else,
  and whose writing gives a file it reads. One of the files declares the prefix
  \<open>ns\<close> followed by the Arabic-Indic digit three (U+0663).
\<close>

definition demo_files :: "(string \<times> element \<times> (prefix \<times> string) list) list" where
  "demo_files =
     [(''<written/>'', el ''written'' [], []),
      (app_xml, el ''Properties'' [], []),
      (core_xml, el ''coreProperties'' [], []),
      (''<nested-changes/>'', nested_changes_tree, odf_namespaces),
      (''<twin-changes/>'', twin_changes_tree, odf_namespaces),
      (''<plain-rsid/>'', plain_rsid_tree, [(codes ''x'', ''urn:x'')]),
      (''<w-rsid/>'', w_rsid_tree, [(codes ''w'', w_uri)]),
      (''<ns-digit/>'', el ''doc'' [], [(codes ''w'', w_uri), ([110, 115, 1635], ''urn:x'')]),
      (''<desc-clash/>'', desc_clash_tree, []),
      (''<unsorted/>'', unsorted_tree, [])]"

definition demo_lib :: etree where
  "demo_lib = \<lparr> ET_parse = map_of demo_files, ET_write = (\<lambda>t. ''<written/>''),
                 ET_broken = (\<lambda>content. []),
                 ET_decimal = (\<lambda>n. (48 \<le> n \<and> n \<le> 57) \<or> (1632 \<le> n \<and> n \<le> 1641)) \<rparr>"

text \<open>
  \<open>word/styles.xml\<close> with an element whose name is the letter e with acute accent
  (U+00E9, two bytes in the file), and what \<open>tree.write\<close> makes of it: the encoding
  defaults to \<open>us-ascii\<close> and the name is written as a character reference, which no
  XML parser takes for a name.
\<close>

definition accent_doc :: string where
  "accent_doc = ''<w:styles xmlns:w='' @ [dq] @ w_uri @ [dq] @ ''><'' @ [CHR 0xC3, CHR 0xA9]
       @ ''/></w:styles>''"

definition accent_tree :: element where
  "accent_tree = el (''{'' @ w_uri @ ''}styles'') [el [CHR 0xE9] []]"

definition accent_written :: string where
  "accent_written = ''<?xml version='' @ [CHR 0x27] @ ''1.0'' @ [CHR 0x27] @ '' encoding=''
       @ [CHR 0x27] @ ''us-ascii'' @ [CHR 0x27] @ ''?>'' @ [CHR 0x0A]
       @ ''<w:styles xmlns:w='' @ [dq] @ w_uri @ [dq] @ ''><&#233; /></w:styles>''"

text \<open>A stand-in for the library on these two files.\<close>

definition ascii_lib :: etree where
  "ascii_lib = \<lparr> ET_parse = map_of [(accent_doc, accent_tree, [(codes ''w'', w_uri)])],
                  ET_write = (\<lambda>t. accent_written),
                  ET_broken = (\<lambda>content. [(codes ''w'', w_uri)]),
                  ET_decimal = (\<lambda>n. 48 \<le> n \<and> n \<le> 57) \<rparr>"

section \<open>Properties of the markup sanitizer\<close>

subsection \<open>Evaluation on the example inputs\<close>

lemma tag_name_title: "tag_name ''<title>'' = ''title''"
  by (simp add: tag_name_def)

lemma py_lower_title: "py_lower ''title'' = ''title''"
  by (simp add: py_lower_def lower_char_def)

lemma init_disjoint:
  "req \<inter> bl = {} \<Longrightarrow> HTMLParser_init bl req =
      Inr \<lparr> textrepr = [], meta = Map.empty, validation_queue = [],
            in_dangerous_but_required_tag = 0, in_dangerous_tag = 0,
            tag_required_blacklist = req, tag_blacklist = bl \<rparr>"
  by (simp add: HTMLParser_init_def)

lemma title_secret_run:
  assumes "''title'' \<in> req" and "req \<inter> bl = {}"
  shows "AbstractHTMLParser_init bl req title_secret =
           Inr \<lparr> textrepr = [Opening ''<title>'', Closing ''title''], meta = Map.empty,
                 validation_queue = [], in_dangerous_but_required_tag = 0,
                 in_dangerous_tag = 0, tag_required_blacklist = req, tag_blacklist = bl \<rparr>"
proof -
  from assms have nb: "''title'' \<notin> bl" by blast
  show ?thesis
    using assms(1) nb
    by (simp add: AbstractHTMLParser_init_def init_disjoint [OF assms(2)] title_secret_def
        handle_starttag_def handle_data_def handle_endtag_def tag_name_title py_lower_title)
qed

text \<open>
  C3. With \<open>title\<close> in the required blacklist, the input \<open><title>Secret</title>\<close> is
  processed without error; the text written is the empty element \<open><title></title>\<close>
  and \<open>Secret\<close> does not occur in it.
\<close>

theorem required_title_placeholder:
  assumes "''title'' \<in> req" and "req \<inter> bl = {}"
  shows "\<exists>out. cleaned (AbstractHTMLParser_init bl req title_secret) = Inr out
           \<and> out = ''<title></title>'' \<and> \<not> occurs_in ''Secret'' out"
  using title_secret_run [OF assms]
  by (simp add: cleaned_def remove_all_def render_def)

theorem required_title_placeholder_witness:
  "''title'' \<in> {''title''} \<and> {''title''} \<inter> {''meta''} = ({} :: string set)
   \<and> (\<exists>out. cleaned (AbstractHTMLParser_init {''meta''} {''title''} title_secret) = Inr out
           \<and> out = ''<title></title>'' \<and> \<not> occurs_in ''Secret'' out)"
  using required_title_placeholder [of "{''title''}" "{''meta''}"]
  by simp

lemma meta_selfclosed_run:
  assumes "''meta'' \<in> bl" and "req \<inter> bl = {}"
  shows "AbstractHTMLParser_init bl req meta_author_selfclosed =
           Inr \<lparr> textrepr = [], meta = [Some ''author'' \<mapsto> Some ''Bob''],
                 validation_queue = [], in_dangerous_but_required_tag = 0,
                 in_dangerous_tag = 0, tag_required_blacklist = req, tag_blacklist = bl \<rparr>"
proof -
  from assms have nr: "''meta'' \<notin> req" by blast
  show ?thesis
    using assms(1) nr
    by (simp add: AbstractHTMLParser_init_def init_disjoint [OF assms(2)]
        meta_author_selfclosed_def meta_author_attrs_def handle_startendtag_def attr_get_def)
qed

text \<open>
  C2, as the code has it. With \<open>meta\<close> in the plain blacklist, the self-closing tag
  \<open><meta name="author" content="Bob"/>\<close> gives the metadata map with the one entry
  \<open>author\<close>, \<open>Bob\<close> and an empty output, and neither method raises.
\<close>

theorem self_closed_meta_harvested:
  assumes "''meta'' \<in> bl" and "req \<inter> bl = {}"
  shows "harvested (AbstractHTMLParser_init bl req meta_author_selfclosed)
           = Inr [Some ''author'' \<mapsto> Some ''Bob'']
         \<and> cleaned (AbstractHTMLParser_init bl req meta_author_selfclosed) = Inr ''''"
  using meta_selfclosed_run [OF assms]
  by (simp add: harvested_def cleaned_def get_meta_def remove_all_def render_def)

theorem self_closed_meta_harvested_witness:
  "''meta'' \<in> {''meta''} \<and> {''title''} \<inter> {''meta''} = ({} :: string set)
   \<and> harvested (AbstractHTMLParser_init {''meta''} {''title''} meta_author_selfclosed)
           = Inr [Some ''author'' \<mapsto> Some ''Bob'']
   \<and> cleaned (AbstractHTMLParser_init {''meta''} {''title''} meta_author_selfclosed) = Inr ''''"
  using self_closed_meta_harvested [of "{''meta''}" "{''title''}"]
  by simp

text \<open>
  The tag of the claim, \<open><meta name="author" content="Bob">\<close>, does not end in
  \<open>/>\<close>: it reaches \<open>handle_starttag\<close>, stays on the validation queue, and both
  methods raise \<open>ValueError\<close>.
\<close>

theorem open_meta_is_refused:
  "cleaned (AbstractHTMLParser_init {''meta''} {''title''} meta_author_open) = Inl ValueError
   \<and> harvested (AbstractHTMLParser_init {''meta''} {''title''} meta_author_open)
       = Inl ValueError"
  by (simp add: cleaned_def harvested_def remove_all_def get_meta_def
      AbstractHTMLParser_init_def HTMLParser_init_def meta_author_open_def handle_starttag_def)

lemma char_of_div:
  "char_of (100::nat) = CHR ''d''" "char_of (105::nat) = CHR ''i''"
  "char_of (118::nat) = CHR ''v''"
  by code_simp+

lemma agree_page: "agree page"
  by (simp add: agree_def page_def lname_def tag_name_def py_lower_def lower_char_def)

lemma page_run:
  "AbstractHTMLParser_init {''meta''} {''title''} page =
     Inr \<lparr> textrepr = [Opening ''<DIV id=x>'', Opening ''<title>'', Closing ''title'',
                        Chars ''Hi'', Closing ''DIV''],
           meta = Map.empty, validation_queue = [],
           in_dangerous_but_required_tag = 0, in_dangerous_tag = 0,
           tag_required_blacklist = {''title''}, tag_blacklist = {''meta''} \<rparr>"
  by (simp add: AbstractHTMLParser_init_def HTMLParser_init_def page_def handle_starttag_def
      handle_endtag_def handle_data_def tag_name_def py_lower_def lower_char_def py_strip_def
      is_space_def escape_def escape_char_def Let_def char_of_div)

lemma page_prefix_run:
  "AbstractHTMLParser_init {''meta''} {''title''} (take 8 page) =
     Inr \<lparr> textrepr = [Opening ''<DIV id=x>'', Opening ''<title>'', Closing ''title''],
           meta = Map.empty, validation_queue = [''<DIV id=x>'', ''<meta>'', ''<b>''],
           in_dangerous_but_required_tag = 0, in_dangerous_tag = 1,
           tag_required_blacklist = {''title''}, tag_blacklist = {''meta''} \<rparr>"
  by (simp add: AbstractHTMLParser_init_def HTMLParser_init_def page_def handle_starttag_def
      handle_endtag_def handle_data_def tag_name_def py_lower_def lower_char_def py_strip_def
      is_space_def escape_def escape_char_def Let_def)


subsection \<open>The counters\<close>

lemma agree_delivered: "agree es \<Longrightarrow> e \<in> set es \<Longrightarrow> delivered (end_tags es) e"
  by (cases e) (auto simp: agree_def end_tags_def split: event.splits)

lemma cntE_snoc:
  "cntE E S (q @ [t]) = cntE E S q + (if lname t \<in> S \<and> lname t \<in> E then 1 else 0)"
  by (simp add: cntE_def)

lemma cntE_nonneg: "0 \<le> cntE E S q"
  by (simp add: cntE_def)

lemma endtag_queue:
  assumes "handle_endtag p tg = Inr p'"
  obtains q t where "validation_queue p = q @ [t]" and "tg = lname t"
proof -
  from assms have ne: "validation_queue p \<noteq> []"
    and teq: "tg = lname (last (validation_queue p))"
    by (auto simp: handle_endtag_def Let_def lname_def split: if_splits)
  from ne have "validation_queue p = butlast (validation_queue p) @ [last (validation_queue p)]"
    by simp
  with teq that show thesis by blast
qed

lemma lower_inv_handle:
  assumes "lower_inv E p" "delivered E e" "handle p e = Inr p'"
  shows "lower_inv E p'"
proof (cases e)
  case (StartTag tg ats src)
  with assms show ?thesis
    by (auto simp: lower_inv_def handle_starttag_def Let_def cntE_snoc)
next
  case (EndTag tg)
  with assms(3) have h: "handle_endtag p tg = Inr p'" by simp
  from h obtain q t where q: "validation_queue p = q @ [t]" and teq: "tg = lname t"
    by (rule endtag_queue)
  from assms EndTag q teq show ?thesis
    by (auto simp: lower_inv_def handle_endtag_def Let_def cntE_snoc lname_def split: if_splits)
next
  case (CharData d)
  with assms show ?thesis by (auto simp: lower_inv_def handle_data_def split: if_splits)
next
  case (StartEndTag tg ats src)
  with assms show ?thesis
    by (auto simp: lower_inv_def handle_startendtag_def Let_def split: if_splits)
qed

lemma lower_inv_feed:
  "lower_inv E p \<Longrightarrow> \<forall>e \<in> set es. delivered E e \<Longrightarrow> feed p es = Inr p' \<Longrightarrow> lower_inv E p'"
proof (induction es arbitrary: p)
  case Nil
  then show ?case by simp
next
  case (Cons e es)
  then obtain p1 where h: "handle p e = Inr p1" and f: "feed p1 es = Inr p'"
    by (auto split: sum.splits)
  from Cons.prems h have "lower_inv E p1" using lower_inv_handle by auto
  with Cons f show ?case by auto
qed

text \<open>
  C9. After every event of a sequence that raises no error (that is, for every prefix
  of the events that the constructor gets through), both counters are at least zero.
\<close>

theorem counters_never_negative:
  assumes "agree events"
      and "AbstractHTMLParser_init bl req (take n events) = Inr p"
  shows "0 \<le> in_dangerous_but_required_tag p \<and> 0 \<le> in_dangerous_tag p"
proof -
  let ?E = "end_tags events"
  from assms(2) obtain p0 where p0: "HTMLParser_init bl req = Inr p0"
    and f: "feed p0 (take n events) = Inr p"
    by (auto simp: AbstractHTMLParser_init_def split: sum.splits)
  from p0 have "lower_inv ?E p0"
    by (auto simp: HTMLParser_init_def lower_inv_def cntE_def split: if_splits)
  moreover have "\<forall>e \<in> set (take n events). delivered ?E e"
    using assms(1) agree_delivered by (meson in_set_takeD)
  ultimately have "lower_inv ?E p" using f lower_inv_feed by blast
  then show ?thesis
    using cntE_nonneg [of ?E "tag_required_blacklist p" "validation_queue p"]
          cntE_nonneg [of ?E "tag_blacklist p" "validation_queue p"]
    by (simp add: lower_inv_def)
qed

theorem counters_never_negative_witness:
  "agree page
   \<and> AbstractHTMLParser_init {''meta''} {''title''} (take 8 page) =
       Inr \<lparr> textrepr = [Opening ''<DIV id=x>'', Opening ''<title>'', Closing ''title''],
             meta = Map.empty, validation_queue = [''<DIV id=x>'', ''<meta>'', ''<b>''],
             in_dangerous_but_required_tag = 0, in_dangerous_tag = 1,
             tag_required_blacklist = {''title''}, tag_blacklist = {''meta''} \<rparr>
   \<and> (0::int) \<le> 0 \<and> (0::int) \<le> 1"
  using counters_never_negative [OF agree_page page_prefix_run] agree_page page_prefix_run
  by simp


subsection \<open>Nesting of the output\<close>

lemma nesting_append:
  "nesting (ps @ qs) stk = (case nesting ps stk of None \<Rightarrow> None | Some s \<Rightarrow> nesting qs s)"
  by (induction ps stk rule: nesting.induct) (auto split: list.splits)

lemma cnt_snoc: "cnt S (q @ [t]) = cnt S q + (if lname t \<in> S then 1 else 0)"
  by (simp add: cnt_def)

lemma shown_snoc:
  "shown req bl r d (q @ [t]) =
     shown req bl r d q @
       (if d + cnt bl (q @ [t]) = 0 \<and> r + cnt req (q @ [t]) \<le> 1 then [t] else [])"
proof (induction q arbitrary: r d)
  case Nil
  show ?case by (simp add: cnt_def Let_def)
next
  case (Cons u q)
  have c: "\<And>S. cnt S (u # q @ [t]) = (if lname u \<in> S then 1 else 0) + cnt S (q @ [t])"
    by (simp add: cnt_def)
  show ?case
    by (simp add: Let_def Cons.IH c add.assoc)
qed

lemma handle_cfg:
  "handle p e = Inr p' \<Longrightarrow>
     tag_required_blacklist p' = tag_required_blacklist p \<and> tag_blacklist p' = tag_blacklist p"
  by (cases e)
     (auto simp: handle_starttag_def handle_endtag_def handle_data_def handle_startendtag_def
        Let_def split: if_splits)

lemma exact_inv_start:
  assumes "exact_inv p" "tg = lname src"
  shows "exact_inv (handle_starttag p tg ats src)"
  using assms
  by (simp add: exact_inv_def handle_starttag_def Let_def cnt_snoc shown_snoc nesting_append
      del: shown.simps)

lemma exact_inv_end:
  assumes "exact_inv p" "disjoint_cfg p" "handle_endtag p tg = Inr p'"
  shows "exact_inv p'"
proof -
  from assms(3) obtain q t where q: "validation_queue p = q @ [t]" and teq: "tg = lname t"
    by (rule endtag_queue)
  from assms(2) have dj: "lname t \<in> tag_required_blacklist p \<Longrightarrow> lname t \<notin> tag_blacklist p"
    by (auto simp: disjoint_cfg_def)
  from assms(3) q teq have p': "p' = p\<lparr>
             validation_queue := q,
             textrepr := (if in_dangerous_tag p = 0 \<and> in_dangerous_but_required_tag p \<le> 1
                          then textrepr p @ [Closing (tag_name t)] else textrepr p),
             in_dangerous_but_required_tag :=
               (if lname t \<in> tag_required_blacklist p then in_dangerous_but_required_tag p - 1
                else in_dangerous_but_required_tag p),
             in_dangerous_tag :=
               (if lname t \<notin> tag_required_blacklist p \<and> lname t \<in> tag_blacklist p
                then in_dangerous_tag p - 1 else in_dangerous_tag p) \<rparr>"
    by (auto simp: handle_endtag_def Let_def lname_def split: if_splits)
  from assms(1) q dj show ?thesis
    unfolding p'
    by (auto simp: exact_inv_def cnt_snoc shown_snoc nesting_append simp del: shown.simps
        split: if_splits)
qed

lemma exact_inv_other:
  "exact_inv p \<Longrightarrow> exact_inv (handle_data p d)"
  "exact_inv p \<Longrightarrow> exact_inv (handle_startendtag p tg ats src)"
  by (auto simp: exact_inv_def handle_data_def handle_startendtag_def Let_def nesting_append)

lemma stuck_handle:
  assumes "stuck E p" "delivered E e" "handle p e = Inr p'"
  shows "stuck E p'"
proof (cases e)
  case (StartTag tg ats src)
  with assms show ?thesis by (auto simp: stuck_def handle_starttag_def Let_def)
next
  case (EndTag tg)
  with assms(3) have h: "handle_endtag p tg = Inr p'" by simp
  from h obtain q t where q: "validation_queue p = q @ [t]" and teq: "tg = lname t"
    by (rule endtag_queue)
  from h q have q': "validation_queue p' = q"
    by (auto simp: handle_endtag_def Let_def split: if_splits)
  from assms(2) EndTag teq have "lname t \<in> E" by simp
  moreover from assms(1) q obtain u where "u \<in> set (q @ [t])" "lname u \<notin> E"
    by (auto simp: stuck_def)
  ultimately have "u \<in> set q" by auto
  with q' \<open>lname u \<notin> E\<close> show ?thesis by (auto simp: stuck_def)
next
  case (CharData d)
  with assms show ?thesis by (auto simp: stuck_def handle_data_def split: if_splits)
next
  case (StartEndTag tg ats src)
  with assms show ?thesis
    by (auto simp: stuck_def handle_startendtag_def Let_def split: if_splits)
qed

lemma upper_handle:
  assumes "stuck E p \<or> exact_inv p" "disjoint_cfg p" "delivered E e" "handle p e = Inr p'"
  shows "stuck E p' \<or> exact_inv p'"
proof (cases "stuck E p")
  case True
  with assms stuck_handle show ?thesis by blast
next
  case False
  with assms(1) have ex: "exact_inv p" by simp
  show ?thesis
  proof (cases e)
    case (StartTag tg ats src)
    show ?thesis
    proof (cases "lname src \<in> E")
      case True
      with assms(3) StartTag have "tg = lname src" by simp
      with ex assms(4) StartTag show ?thesis using exact_inv_start by auto
    next
      case False
      with assms(4) StartTag show ?thesis
        by (auto simp: stuck_def handle_starttag_def Let_def)
    qed
  next
    case (EndTag tg)
    with ex assms show ?thesis using exact_inv_end by auto
  next
    case (CharData d)
    with ex assms show ?thesis using exact_inv_other by auto
  next
    case (StartEndTag tg ats src)
    with ex assms show ?thesis using exact_inv_other by auto
  qed
qed

lemma upper_feed:
  "stuck E p \<or> exact_inv p \<Longrightarrow> disjoint_cfg p \<Longrightarrow> \<forall>e \<in> set es. delivered E e \<Longrightarrow>
     feed p es = Inr p' \<Longrightarrow> stuck E p' \<or> exact_inv p'"
proof (induction es arbitrary: p)
  case Nil
  then show ?case by simp
next
  case (Cons e es)
  then obtain p1 where h: "handle p e = Inr p1" and f: "feed p1 es = Inr p'"
    by (auto split: sum.splits)
  from Cons.prems h have 1: "stuck E p1 \<or> exact_inv p1" using upper_handle by auto
  from Cons.prems(2) h have 2: "disjoint_cfg p1" using handle_cfg by (auto simp: disjoint_cfg_def)
  from Cons.IH [OF 1 2 _ f] Cons.prems(3) show ?case by auto
qed

text \<open>
  When the constructor gets through the whole input and \<open>remove_all\<close> does not
  raise, the runs that make up the text written are validly nested: every opening run
  is closed by a matching closing run, in nested order.
\<close>

lemma runs_validly_nested:
  assumes "agree events"
      and "AbstractHTMLParser_init bl req events = Inr p"
      and "remove_all p = Inr out"
  shows "validly_nested (textrepr p) \<and> out = render (textrepr p)"
proof -
  let ?E = "end_tags events"
  from assms(2) obtain p0 where p0: "HTMLParser_init bl req = Inr p0"
    and f: "feed p0 events = Inr p"
    by (auto simp: AbstractHTMLParser_init_def split: sum.splits)
  from p0 have i0: "exact_inv p0" and d0: "disjoint_cfg p0"
    by (auto simp: HTMLParser_init_def exact_inv_def disjoint_cfg_def cnt_def split: if_splits)
  have "\<forall>e \<in> set events. delivered ?E e"
    using assms(1) agree_delivered by blast
  with i0 d0 f have "stuck ?E p \<or> exact_inv p" using upper_feed by blast
  moreover from assms(3) have q: "validation_queue p = []" and o: "out = render (textrepr p)"
    by (auto simp: remove_all_def split: if_splits)
  ultimately have "exact_inv p" by (auto simp: stuck_def)
  with q o show ?thesis by (simp add: exact_inv_def validly_nested_def)
qed


section \<open>Properties of the comment-based sanitizer\<close>

lemma find_close_tl: "find_close (c # cs) = None \<Longrightarrow> find_close cs = None"
  by (induction cs arbitrary: c) (auto split: if_splits)

lemma strip_no_close: "find_close s = None \<Longrightarrow> strip_comments s = s"
proof (induction s rule: strip_comments.induct)
  case (1 a b cs)
  from "1.prems" have b: "find_close (b # cs) = None" by (rule find_close_tl)
  then have c: "find_close cs = None" by (rule find_close_tl)
  have "strip_comments (b # cs) = b # cs"
  proof (cases "a = CHR ''/'' \<and> b = CHR ''*''")
    case True
    from "1.IH"(1) [OF True c b] show ?thesis .
  next
    case False
    from "1.IH"(3) [OF False b] show ?thesis .
  qed
  with c show ?case by auto
qed simp_all

lemma find_close_occurs: "find_close s = Some r \<Longrightarrow> occurs_in p r \<Longrightarrow> occurs_in p s"
proof (induction s rule: find_close.induct)
  case (1 a b cs)
  then show ?case by (cases "a = CHR ''*'' \<and> b = CHR ''/''") (auto simp del: starts_with.simps)
qed simp_all

lemma strip_head_star:
  "strip_comments s = CHR ''*'' # t \<Longrightarrow>
     starts_with ''*'' s \<or> starts_with ''/*'' s"
  by (induction s rule: strip_comments.induct) (auto split: if_splits option.splits)

lemma strip_idem_aux:
  "\<not> occurs_in ''//*'' s \<Longrightarrow> strip_comments (strip_comments s) = strip_comments s"
proof (induction s rule: strip_comments.induct)
  case (1 a b cs)
  show ?case
  proof (cases "a = CHR ''/'' \<and> b = CHR ''*''")
    case True
    show ?thesis
    proof (cases "find_close cs")
      case None
      then have "strip_comments cs = cs" by (rule strip_no_close)
      with True have bc: "strip_comments (b # cs) = b # cs" by (cases cs) auto
      from True None have "strip_comments (a # b # cs) = a # strip_comments (b # cs)" by simp
      with bc show ?thesis by simp
    next
      case (Some rest)
      have "\<not> occurs_in ''//*'' rest"
      proof
        assume "occurs_in ''//*'' rest"
        with Some have "occurs_in ''//*'' cs" by (rule find_close_occurs)
        with "1.prems" show False by simp
      qed
      from "1.IH"(2) [OF True Some this] True Some show ?thesis by simp
    qed
  next
    case False
    from "1.prems" have nb: "\<not> occurs_in ''//*'' (b # cs)" by simp
    from "1.IH"(3) [OF False nb]
    have ih: "strip_comments (strip_comments (b # cs)) = strip_comments (b # cs)" .
    from False have s: "strip_comments (a # b # cs) = a # strip_comments (b # cs)" by auto
    show ?thesis
    proof (cases "strip_comments (b # cs)")
      case Nil
      with s show ?thesis by simp
    next
      case (Cons x xs)
      have "\<not> (a = CHR ''/'' \<and> x = CHR ''*'')"
      proof
        assume ax: "a = CHR ''/'' \<and> x = CHR ''*''"
        with Cons have "starts_with ''*'' (b # cs) \<or> starts_with ''/*'' (b # cs)"
          using strip_head_star by blast
        with False ax "1.prems" show False by (cases cs) auto
      qed
      with s Cons ih show ?thesis by auto
    qed
  qed
qed simp_all


text \<open>
  C8, as the code has it. Cleaning a text in which no comment opener directly follows
  a slash (the three characters \<open>//*\<close> do not occur) gives a text that cleaning
  leaves as it is.
\<close>

theorem remove_all_idempotent_without_slash_opener:
  assumes "\<not> occurs_in ''//*'' text"
  shows "snd (CSSParser_remove_all (snd (CSSParser_remove_all text)))
           = snd (CSSParser_remove_all text)"
  using strip_idem_aux [OF assms] by (simp add: CSSParser_remove_all_def)

theorem remove_all_idempotent_without_slash_opener_witness:
  "\<not> occurs_in ''//*'' ''/* author: Alice */ body{color:red}''
   \<and> snd (CSSParser_remove_all '' body{color:red}'') = '' body{color:red}''"
proof -
  have n: "\<not> occurs_in ''//*'' ''/* author: Alice */ body{color:red}''" by simp
  have c: "snd (CSSParser_remove_all ''/* author: Alice */ body{color:red}'')
             = '' body{color:red}''"
    by (simp add: CSSParser_remove_all_def)
  from remove_all_idempotent_without_slash_opener [OF n] n c show ?thesis by simp
qed

text \<open>
  Where a slash stands before a comment and a star behind it, taking the comment out
  joins them into a new opener: \<open>//**/**/\<close> is cleaned to \<open>/**/\<close>, which is cleaned to
  the empty text.
\<close>

theorem remove_all_not_idempotent:
  "snd (CSSParser_remove_all ''//**/**/'') = ''/**/''
   \<and> snd (CSSParser_remove_all (snd (CSSParser_remove_all ''//**/**/''))) = ''''
   \<and> snd (CSSParser_remove_all (snd (CSSParser_remove_all ''//**/**/'')))
       \<noteq> snd (CSSParser_remove_all ''//**/**/'')"
  by (simp add: CSSParser_remove_all_def)


section \<open>The text written by the markup sanitizer\<close>



















lemma balance_append:
  "balance (ts @ us) stk = (case balance ts stk of None \<Rightarrow> None | Some s \<Rightarrow> balance us s)"
  by (induction ts stk rule: balance.induct) (auto split: list.splits)







section \<open>Properties of the attribute-order canonicalizer\<close>

lemma demo_parse:
  "ET_parse demo_lib ''<desc-clash/>'' = Some (desc_clash_tree, [])"
  "ET_parse demo_lib ''<unsorted/>'' = Some (unsorted_tree, [])"
  "ET_parse demo_lib ''<w-rsid/>'' = Some (w_rsid_tree, [(codes ''w'', w_uri)])"
  "ET_parse demo_lib ''<plain-rsid/>'' = Some (plain_rsid_tree, [(codes ''x'', ''urn:x'')])"
  "ET_parse demo_lib ''<nested-changes/>'' = Some (nested_changes_tree, odf_namespaces)"
  "ET_parse demo_lib ''<twin-changes/>'' = Some (twin_changes_tree, odf_namespaces)"
  "ET_parse demo_lib ''garbage'' = None"
  by (simp_all add: demo_lib_def demo_files_def app_xml_def core_xml_def dq_def)

lemma demo_write: "ET_write demo_lib t = ''<written/>''"
  by (simp add: demo_lib_def)

lemma sort_each_error: "sort_each cs = Inl e \<Longrightarrow> e = TypeError"
  by (induction cs rule: sort_each.induct)
     (auto simp: sorted_py_def split: if_splits sum.splits)

lemma sort_each_clash:
  assumes "c \<in> set cs"
      and "list_ex (\<lambda>a. list_ex (clash a) (children c)) (children c)"
  shows "sort_each cs = Inl TypeError"
  using assms
proof (induction cs)
  case Nil
  then show ?case by simp
next
  case (Cons e es)
  obtain t a x y ks where e: "e = Element t a x y ks" by (cases e)
  show ?case
  proof (cases "list_ex (\<lambda>a. list_ex (clash a) ks) ks")
    case True
    then show ?thesis by (simp add: e sorted_py_def)
  next
    case False
    with Cons.prems e have "c \<in> set es" by auto
    with Cons have "sort_each es = Inl TypeError" by simp
    with False show ?thesis by (simp add: e sorted_py_def)
  qed
qed

lemma sort_each_no_clash:
  "\<forall>c\<in>set cs. \<not> list_ex (\<lambda>a. list_ex (clash a) (children c)) (children c)
     \<Longrightarrow> sort_each cs =
           Inr (map (\<lambda>c. Element (tag c) (attrib c) (chars c) (tail c)
                          (sort_key child_key (children c))) cs)"
  by (induction cs rule: sort_each.induct) (simp_all add: sorted_py_def)

text \<open>
  C10. Let a file parse to a tree in which some child of the root has two children
  with the same tag, one with a \<open>desc\<close> attribute and one without. Then
  \<open>_sort_xml_attributes\<close> raises \<open>TypeError\<close>: it neither returns nor raises
  \<open>ParseError\<close>. The hook of the ODF cleaner, which catches \<open>ParseError\<close> only, lets the
  exception through for such a member (here one named \<open>styles.xml\<close>, not empty).
\<close>

theorem sort_raises_type_error:
  assumes "ET_parse lib content = Some (root, events)"
      and "c \<in> set (children root)"
      and "a \<in> set (children c)" and "b \<in> set (children c)"
      and "tag a = tag b" and "desc a \<noteq> None" and "desc b = None"
      and "content \<noteq> []"
  shows "sort_xml_attributes lib content = Inl TypeError
         \<and> LibreOffice_specific_cleanup lib ''styles.xml'' content = (content, Raised TypeError)"
proof -
  from assms(5-7) have "clash a b" by (simp add: clash_def)
  with assms(3,4) have "list_ex (\<lambda>a. list_ex (clash a) (children c)) (children c)"
    unfolding list_ex_iff by blast
  with assms(2) have "sort_each (children root) = Inl TypeError" by (rule sort_each_clash)
  with assms(1) have s: "sort_xml_attributes lib content = Inl TypeError"
    by (simp add: sort_xml_attributes_def sort_tree_def)
  with assms(8) show ?thesis
    by (simp add: LibreOffice_specific_cleanup_def ends_with_def)
qed

theorem sort_raises_type_error_witness:
  "ET_parse demo_lib ''<desc-clash/>'' = Some (desc_clash_tree, [])
   \<and> el ''sec'' [Element ''p'' [(''desc'', ''x'')] [] [] [], el ''p'' []]
        \<in> set (children desc_clash_tree)
   \<and> desc (Element ''p'' [(''desc'', ''x'')] [] [] []) = Some ''x''
   \<and> desc (el ''p'' []) = None
   \<and> sort_xml_attributes demo_lib ''<desc-clash/>'' = Inl TypeError
   \<and> LibreOffice_specific_cleanup demo_lib ''styles.xml'' ''<desc-clash/>''
       = (''<desc-clash/>'', Raised TypeError)"
proof -
  have c: "el ''sec'' [Element ''p'' [(''desc'', ''x'')] [] [] [], el ''p'' []]
             \<in> set (children desc_clash_tree)"
    by (simp add: desc_clash_tree_def el_def)
  have a: "desc (Element ''p'' [(''desc'', ''x'')] [] [] []) = Some ''x''"
    and b: "desc (el ''p'' []) = None"
    by (simp_all add: desc_def el_def)
  from sort_raises_type_error [of demo_lib "''<desc-clash/>''" desc_clash_tree "[]"
         "el ''sec'' [Element ''p'' [(''desc'', ''x'')] [] [] [], el ''p'' []]"
         "Element ''p'' [(''desc'', ''x'')] [] [] []" "el ''p'' []"] demo_parse(1) c a b
  show ?thesis by (simp add: el_def)
qed

text \<open>
  C5, as the code has it. Let a file parse to a tree in which no child of the root
  has two children with the same tag of which exactly one has \<open>desc\<close>. Then
  \<open>_sort_xml_attributes\<close> returns and writes a tree with the root and the children of the
  root as they were and in the order they had; the children of each child of the root
  are the same elements as before, in ascending order of \<open>(tag, desc)\<close>, those
  with the same key in the order they had.
\<close>

theorem sort_xml_attributes_sorts_below_children_of_root:
  assumes "ET_parse lib content = Some (root, events)"
      and "\<forall>c\<in>set (children root). \<forall>a\<in>set (children c). \<forall>b\<in>set (children c).
             \<not> clash a b"
  shows "\<exists>root'. sort_xml_attributes lib content = Inr (ET_write lib root')
           \<and> tag root' = tag root \<and> attrib root' = attrib root
           \<and> chars root' = chars root \<and> tail root' = tail root
           \<and> length (children root') = length (children root)
           \<and> (\<forall>i<length (children root).
                  tag (children root' ! i) = tag (children root ! i)
                \<and> attrib (children root' ! i) = attrib (children root ! i)
                \<and> chars (children root' ! i) = chars (children root ! i)
                \<and> tail (children root' ! i) = tail (children root ! i)
                \<and> sorted (map child_key (children (children root' ! i)))
                \<and> mset (children (children root' ! i)) = mset (children (children root ! i))
                \<and> (\<forall>k. filter (\<lambda>x. child_key x = k) (children (children root' ! i))
                         = filter (\<lambda>x. child_key x = k) (children (children root ! i))))"
proof -
  let ?f = "\<lambda>c. Element (tag c) (attrib c) (chars c) (tail c)
                   (sort_key child_key (children c))"
  let ?root' = "Element (tag root) (attrib root) (chars root) (tail root)
                  (map ?f (children root))"
  from assms(2)
  have "\<forall>c\<in>set (children root).
          \<not> list_ex (\<lambda>a. list_ex (clash a) (children c)) (children c)"
    by (simp add: list_ex_iff)
  then have "sort_each (children root) = Inr (map ?f (children root))"
    by (rule sort_each_no_clash)
  with assms(1) have "sort_xml_attributes lib content = Inr (ET_write lib ?root')"
    by (simp add: sort_xml_attributes_def sort_tree_def)
  moreover have "\<forall>i<length (children root).
      sorted (map child_key (children (map ?f (children root) ! i)))
    \<and> (\<forall>k. filter (\<lambda>x. child_key x = k) (children (map ?f (children root) ! i))
             = filter (\<lambda>x. child_key x = k) (children (children root ! i)))"
    by (simp add: sort_key_stable)
  ultimately show ?thesis
    by (intro exI [of _ ?root']) simp
qed

theorem sort_xml_attributes_sorts_below_children_of_root_witness:
  "ET_parse demo_lib ''<unsorted/>'' = Some (unsorted_tree, [])
   \<and> sort_xml_attributes demo_lib ''<unsorted/>'' = Inr ''<written/>''
   \<and> sort_tree unsorted_tree =
       Inr (el ''doc'' [el ''b'' [el ''y'' [], el ''z'' [el ''n'' [], el ''m'' []]],
                        el ''a'' []])"
proof -
  have n: "\<forall>c\<in>set (children unsorted_tree). \<forall>a\<in>set (children c). \<forall>b\<in>set (children c).
             \<not> clash a b"
    by (simp add: unsorted_tree_def el_def clash_def)
  have s: "sort_tree unsorted_tree =
       Inr (el ''doc'' [el ''b'' [el ''y'' [], el ''z'' [el ''n'' [], el ''m'' []]],
                        el ''a'' []])"
    by code_simp
  from sort_xml_attributes_sorts_below_children_of_root [OF demo_parse(2) n] demo_parse(2) s
  show ?thesis by (auto simp: demo_write)
qed

text \<open>
  The claim as it stands fails on a tree that parses and sorts without error: the
  children \<open>b\<close>, \<open>a\<close> of the root stay in this order, and so do the children \<open>n\<close>,
  \<open>m\<close> two levels below a child of the root; only \<open>z\<close>, \<open>y\<close> change places.
\<close>

theorem root_children_stay_unsorted:
  "sort_tree unsorted_tree =
       Inr (el ''doc'' [el ''b'' [el ''y'' [], el ''z'' [el ''n'' [], el ''m'' []]],
                        el ''a'' []])
   \<and> sort_xml_attributes demo_lib ''<unsorted/>'' =
       Inr (ET_write demo_lib
              (el ''doc'' [el ''b'' [el ''y'' [], el ''z'' [el ''n'' [], el ''m'' []]],
                           el ''a'' []]))
   \<and> \<not> sorted (map child_key [el ''b'' [el ''y'' [], el ''z'' [el ''n'' [], el ''m'' []]],
                               el ''a'' []])
   \<and> \<not> sorted (map child_key [el ''n'' [], el ''m'' []])"
  by code_simp


section \<open>Properties of the rsid removal\<close>











lemma read_namespaces_error: "read_namespaces lib events m = Inl e \<Longrightarrow> e = ValueError"
  by (induction lib events m rule: read_namespaces.induct) (auto simp: Let_def split: if_splits)

lemma parse_xml_ParseError: "parse_xml lib c = Inl ParseError \<Longrightarrow> ET_parse lib c = None"
  by (auto simp: parse_xml_def split: option.splits sum.splits dest: read_namespaces_error)




text \<open>A prefix made of \<open>ns\<close> and a decimal digit that is not one of \<open>0\<close> to \<open>9\<close>
  is not renamed, and \<open>register_namespace\<close> refuses it.\<close>

lemma reserved_prefix_raises:
  "parse_xml demo_lib ''<ns-digit/>'' = Inl ValueError
   \<and> MSOffice_remove_rsid demo_lib ''<ns-digit/>'' = (''<ns-digit/>'', Raised ValueError)"
  by code_simp


section \<open>Properties of the cleanup hook for word processing documents\<close>

lemma content_type_members_False:
  "MSOffice_remove_content_type_members lib z c = (c', Returned False) \<Longrightarrow> c' = c"
  by (auto simp: MSOffice_remove_content_type_members_def Let_def
      split: option.splits if_splits sum.splits prod.splits)

lemma content_type_members_True:
  "MSOffice_remove_content_type_members lib z c = (c', Returned True)
     \<Longrightarrow> \<exists>t. c' = ET_write lib t"
  by (auto simp: MSOffice_remove_content_type_members_def Let_def
      split: option.splits if_splits sum.splits prod.splits)

lemma remove_revisions_False:
  "MSOffice_remove_revisions lib c = (c', Returned False) \<Longrightarrow> c' = c"
  by (auto simp: MSOffice_remove_revisions_def
      split: option.splits if_splits sum.splits prod.splits)

lemma remove_revisions_True:
  "MSOffice_remove_revisions lib c = (c', Returned True)
     \<Longrightarrow> c' = c \<or> (\<exists>t. c' = ET_write lib t)"
  by (auto simp: MSOffice_remove_revisions_def
      split: option.splits if_splits sum.splits prod.splits)

lemma remove_rsid_False:
  "MSOffice_remove_rsid lib c = (c', Returned False) \<Longrightarrow> c' = c \<and> ET_parse lib c = None"
  by (auto simp: MSOffice_remove_rsid_def
      split: sum.splits if_splits prod.splits dest: parse_xml_ParseError)

lemma remove_rsid_True:
  "MSOffice_remove_rsid lib c = (c', Returned True)
     \<Longrightarrow> c' = c \<or> (\<exists>t. c' = ET_write lib t)"
  by (auto simp: MSOffice_remove_rsid_def split: sum.splits if_splits prod.splits)

lemma sort_xml_attributes_ParseError:
  "sort_xml_attributes lib c = Inl ParseError \<Longrightarrow> ET_parse lib c = None"
  by (auto simp: sort_xml_attributes_def sort_tree_def
      split: option.splits sum.splits dest: sort_each_error)

text \<open>What the steps before the rsid removal leave in the file when they do not fail: the
  file as it was, or a file that the library or the hook has written.\<close>

lemma first_step_True:
  assumes "(if ends_with full_path ''/[Content_Types].xml''
               then MSOffice_remove_content_type_members lib zip_names content
               else if ends_with full_path ''/word/document.xml''
               then MSOffice_remove_revisions lib content
               else if ends_with full_path ''/docProps/app.xml''
               then (app_xml, Returned True)
               else if ends_with full_path ''/docProps/core.xml''
               then (core_xml, Returned True)
               else (content, Returned True)) = (c1, Returned True)"
  shows "c1 = content \<or> (\<exists>t. c1 = ET_write lib t) \<or> c1 = app_xml \<or> c1 = core_xml"
  using assms
  by (auto split: if_splits dest: content_type_members_True remove_revisions_True)

lemma first_step_False:
  assumes "(if ends_with full_path ''/[Content_Types].xml''
               then MSOffice_remove_content_type_members lib zip_names content
               else if ends_with full_path ''/word/document.xml''
               then MSOffice_remove_revisions lib content
               else if ends_with full_path ''/docProps/app.xml''
               then (app_xml, Returned True)
               else if ends_with full_path ''/docProps/core.xml''
               then (core_xml, Returned True)
               else (content, Returned True)) = (c1, Returned False)"
  shows "c1 = content"
  using assms
  by (auto split: if_splits dest: content_type_members_False remove_revisions_False)

text \<open>
  C6, as the code has it. Every step works on the file in place and none puts back
  what it found. Whenever the hook returns \<open>False\<close>, the file of the member holds what
  it held before the call, or it holds what a step of this call has written (the output
  of \<open>tree.write\<close>, or the fixed text for \<open>docProps/app.xml\<close> or \<open>docProps/core.xml\<close>)
  and the library does not parse that.
\<close>

theorem failure_leaves_read_or_unparsed_write:
  assumes "MSOffice_specific_cleanup lib zip_names full_path content = (content', Returned False)"
  shows "content' = content
         \<or> (ET_parse lib content' = None
             \<and> (content' = app_xml \<or> content' = core_xml \<or> (\<exists>t. content' = ET_write lib t)))"
proof (cases "length content = 0 \<or> \<not> ends_with full_path ''.xml''")
  case True
  then have "MSOffice_specific_cleanup lib zip_names full_path content
               = (content, Returned True)"
    by (cases "length content = 0") (simp_all add: MSOffice_specific_cleanup_def)
  with assms show ?thesis by simp
next
  case False
  obtain c1 o1 where s1:
    "(if ends_with full_path ''/[Content_Types].xml''
               then MSOffice_remove_content_type_members lib zip_names content
               else if ends_with full_path ''/word/document.xml''
               then MSOffice_remove_revisions lib content
               else if ends_with full_path ''/docProps/app.xml''
               then (app_xml, Returned True)
               else if ends_with full_path ''/docProps/core.xml''
               then (core_xml, Returned True)
               else (content, Returned True)) = (c1, o1)"
    by (cases "(if ends_with full_path ''/[Content_Types].xml''
               then MSOffice_remove_content_type_members lib zip_names content
               else if ends_with full_path ''/word/document.xml''
               then MSOffice_remove_revisions lib content
               else if ends_with full_path ''/docProps/app.xml''
               then (app_xml, Returned True)
               else if ends_with full_path ''/docProps/core.xml''
               then (core_xml, Returned True)
               else (content, Returned True))") blast
  obtain c2 o2 where s2: "MSOffice_remove_rsid lib c1 = (c2, o2)"
    by (cases "MSOffice_remove_rsid lib c1") blast
  from False s1 s2
  have hook: "MSOffice_specific_cleanup lib zip_names full_path content =
      (if o1 \<noteq> Returned True then (c1, o1)
       else if o2 \<noteq> Returned True then (c2, o2)
       else (case sort_xml_attributes lib c2 of
               Inl e \<Rightarrow> (c2, if e = ParseError then Returned False else Raised e)
             | Inr c3 \<Rightarrow> (sub_ignorable c3, Returned True)))"
    unfolding MSOffice_specific_cleanup_def by simp
  show ?thesis
  proof (cases "o1 = Returned True")
    case o1f: False
    with hook assms have "c1 = content'" "o1 = Returned False" by simp_all
    with s1 first_step_False show ?thesis by blast
  next
    case o1t: True
    with s1 first_step_True
    have c1: "c1 = content \<or> (\<exists>t. c1 = ET_write lib t) \<or> c1 = app_xml \<or> c1 = core_xml"
      by blast
    show ?thesis
    proof (cases "o2 = Returned True")
      case o2f: False
      with hook o1t assms have "c2 = content'" "o2 = Returned False" by simp_all
      with s2 remove_rsid_False have "content' = c1" "ET_parse lib c1 = None" by blast+
      with c1 show ?thesis by metis
    next
      case o2t: True
      with s2 remove_rsid_True have c2: "c2 = c1 \<or> (\<exists>t. c2 = ET_write lib t)" by blast
      from hook o1t o2t assms
      have "content' = c2" and "sort_xml_attributes lib c2 = Inl ParseError"
        by (auto split: sum.splits if_splits)
      then have "ET_parse lib content' = None"
        by (auto dest: sort_xml_attributes_ParseError)
      with c1 c2 \<open>content' = c2\<close> show ?thesis by metis
    qed
  qed
qed

lemma accent_run:
  "MSOffice_specific_cleanup ascii_lib [] ''/tmp/doc/word/styles.xml'' accent_doc
     = (accent_written, Returned False)"
  by code_simp

theorem failure_leaves_read_or_unparsed_write_witness:
  "MSOffice_specific_cleanup ascii_lib [] ''/tmp/doc/word/styles.xml'' accent_doc
     = (accent_written, Returned False)
   \<and> ET_parse ascii_lib accent_written = None
   \<and> accent_written = ET_write ascii_lib accent_tree"
proof -
  have n: "accent_written \<noteq> accent_doc"
    and a: "accent_written \<noteq> app_xml" and c: "accent_written \<noteq> core_xml"
    by (simp_all add: accent_written_def accent_doc_def app_xml_def core_xml_def)
  from failure_leaves_read_or_unparsed_write [OF accent_run] n a c accent_run
  show ?thesis by (auto simp: ascii_lib_def)
qed

text \<open>
  The claim as it stands fails on a \<open>word/styles.xml\<close> that declares the prefix \<open>w\<close>
  and has an element named with an accented letter: \<open>__remove_rsid\<close> writes the file,
  the library does not parse what it has written there, and the hook returns \<open>False\<close>
  with the rewritten file in place.
\<close>

theorem failure_after_rewrite:
  "ET_parse ascii_lib accent_doc = Some (accent_tree, [(codes ''w'', w_uri)])
   \<and> MSOffice_remove_rsid ascii_lib accent_doc = (accent_written, Returned True)
   \<and> sort_xml_attributes ascii_lib accent_written = Inl ParseError
   \<and> MSOffice_specific_cleanup ascii_lib [] ''/tmp/doc/word/styles.xml'' accent_doc
       = (accent_written, Returned False)
   \<and> accent_written \<noteq> accent_doc"
  by code_simp


section \<open>The revision removal for ODF text documents\<close>

text \<open>
  C7. In a \<open>content.xml\<close> whose tracked changes stand inside a paragraph of
  \<open>office:text\<close>, the inner \<open>iterfind\<close> finds them and \<open>text.remove\<close> raises
  \<open>ValueError\<close>, which neither \<open>__remove_revisions\<close> nor the hook catches: the call
  does not succeed and the file keeps the tracked changes. Of two blocks of tracked
  changes that are adjacent children of \<open>office:text\<close>, the second stays.
\<close>

theorem nested_tracked_changes_raise:
  "ET_parse demo_lib ''<nested-changes/>'' = Some (nested_changes_tree, odf_namespaces)
   \<and> LibreOffice_remove_revisions demo_lib ''<nested-changes/>''
       = (''<nested-changes/>'', Raised ValueError)
   \<and> LibreOffice_specific_cleanup demo_lib ''content.xml'' ''<nested-changes/>''
       = (''<nested-changes/>'', Raised ValueError)
   \<and> office_walk_list (''{'' @ office_uri @ ''}text'')
         (Inr (''{'' @ text_uri @ ''}tracked-changes'')) (children twin_changes_tree)
       = Inr [el (''{'' @ office_uri @ ''}body'')
                [el (''{'' @ office_uri @ ''}text'') [tracked_changes]]]"
  by code_simp
end
